theory Spec2Isabelle
  imports Complex_Main "HOL-Library.Word" "HOL-Library.Sublist"
begin

unbundle bit_operations_syntax

section \<open>Exceptions and outcomes\<close>

text \<open>
  The exception classes the two files throw. \<open>OutOfRangeException\<close> carries its format
  string and the values substituted into it.
\<close>

datatype error =
    OutOfRangeException string "int list"
  | BinderException string
  | InternalException string

text \<open>
  What a call does: it returns, it throws, or the C++ program has no defined behaviour
  (signed overflow, a write outside a buffer, \<^verbatim>\<open>delete[]\<close> of a buffer that is not live).
\<close>

datatype 'a outcome = Returns 'a | Throws error | Undefined

fun is_out_of_range :: "'a outcome \<Rightarrow> bool" where
  "is_out_of_range (Throws (OutOfRangeException msg args)) = True"
| "is_out_of_range other = False"

section \<open>Scalar bitwise aggregates (bitagg.cpp, BitwiseOperation and its subclasses)\<close>

text \<open>
  \<^verbatim>\<open>template <class T> struct BitState { bool is_set; T value; };\<close>
  The state value of the integer aggregates is an unsigned machine integer; a signed input
  is stored with the same bit pattern, so both are words of one width.
\<close>

record 'a BitState =
  is_set :: bool
  "value" :: 'a

datatype bitop = BitAndOperation | BitOrOperation | BitXorOperation

definition Initialize :: "'a BitState \<Rightarrow> 'a BitState" where
  "Initialize state = state\<lparr>is_set := False\<rparr>"

definition Assign :: "'a BitState \<Rightarrow> 'a \<Rightarrow> 'a BitState" where
  "Assign state input = state\<lparr>value := input\<rparr>"

fun Execute :: "bitop \<Rightarrow> ('a::len) word BitState \<Rightarrow> 'a word \<Rightarrow> 'a word BitState" where
  "Execute BitAndOperation state input = state\<lparr>value := value state AND input\<rparr>"
| "Execute BitOrOperation state input = state\<lparr>value := value state OR input\<rparr>"
| "Execute BitXorOperation state input = state\<lparr>value := value state XOR input\<rparr>"

definition Operation :: "bitop \<Rightarrow> ('a::len) word BitState \<Rightarrow> 'a word \<Rightarrow> 'a word BitState" where
  "Operation OP state input =
     (if \<not> is_set state then (Assign state input)\<lparr>is_set := True\<rparr>
      else Execute OP state input)"

text \<open>
  \<open>BitwiseOperation::ConstantOperation\<close> runs \<open>Operation\<close> once whatever the count;
  \<open>BitXorOperation\<close> overrides it with \<^verbatim>\<open>for (idx_t i = 0; i < count; i++)\<close>.
\<close>

fun ConstantOperation :: "bitop \<Rightarrow> ('a::len) word BitState \<Rightarrow> 'a word \<Rightarrow> nat \<Rightarrow> 'a word BitState" where
  "ConstantOperation BitXorOperation state input count =
     fold (\<lambda>i st. Operation BitXorOperation st input) [0..<count] state"
| "ConstantOperation OP state input count = Operation OP state input"

section \<open>Integer input types of the range-bitmap aggregate\<close>

text \<open>
  \<open>BitStringAggFun::GetBitStringAggregate\<close> instantiates the aggregate for these nine types.
  A value of the input type is an \<open>int\<close> within the bounds of its type; the C++ arithmetic
  on it is written out below.
\<close>

datatype LogicalTypeId =
    TINYINT | SMALLINT | INTEGER | BIGINT | HUGEINT
  | UTINYINT | USMALLINT | UINTEGER | UBIGINT

fun type_bits :: "LogicalTypeId \<Rightarrow> nat" where
  "type_bits TINYINT = 8"
| "type_bits SMALLINT = 16"
| "type_bits INTEGER = 32"
| "type_bits BIGINT = 64"
| "type_bits HUGEINT = 128"
| "type_bits UTINYINT = 8"
| "type_bits USMALLINT = 16"
| "type_bits UINTEGER = 32"
| "type_bits UBIGINT = 64"

fun is_signed :: "LogicalTypeId \<Rightarrow> bool" where
  "is_signed UTINYINT = False"
| "is_signed USMALLINT = False"
| "is_signed UINTEGER = False"
| "is_signed UBIGINT = False"
| "is_signed t = True"

definition fits :: "LogicalTypeId \<Rightarrow> int \<Rightarrow> bool" where
  "fits t v =
     (if is_signed t then - (2 ^ (type_bits t - 1)) \<le> v \<and> v < 2 ^ (type_bits t - 1)
      else 0 \<le> v \<and> v < 2 ^ type_bits t)"

text \<open>
  Modelled from the spec: arithmetic on \<open>hugeint_t\<close> (its operators are declared outside
  these sources). The spec says the 128-bit computation is careful and that overflow is an
  out-of-range error; the message text is not given there and nothing below depends on it.
\<close>

definition hugeint_overflow :: error where
  "hugeint_overflow = OutOfRangeException ''Overflow in HUGEINT arithmetic'' []"

text \<open>
  The value of an arithmetic result \<open>v\<close> (a difference, or a sum with 1) whose operands have
  type \<open>t\<close>. Operands narrower than \<open>int\<close> are promoted to \<open>int\<close> and so is the result;
  signed overflow is undefined; unsigned 32- and 64-bit results wrap around; a \<open>hugeint_t\<close>
  result that does not fit 128 bits is the out-of-range error above.
\<close>

fun arith :: "LogicalTypeId \<Rightarrow> int \<Rightarrow> int outcome" where
  "arith UINTEGER v = Returns (v mod 2 ^ 32)"
| "arith UBIGINT v = Returns (v mod 2 ^ 64)"
| "arith BIGINT v = (if fits BIGINT v then Returns v else Undefined)"
| "arith HUGEINT v = (if fits HUGEINT v then Returns v else Throws hugeint_overflow)"
| "arith t v = (if fits INTEGER v then Returns v else Undefined)"

text \<open>Conversion of an integer value to \<open>idx_t\<close> (unsigned 64 bits).\<close>

definition to_idx_t :: "int \<Rightarrow> nat" where
  "to_idx_t v = nat (v mod 2 ^ 64)"

text \<open>
  Modelled from the spec: \<open>Hugeint::TryCast\<close> to the index type (declared outside these
  sources): narrowing succeeds when the value is an unsigned 64-bit number.
\<close>

definition Hugeint_TryCast :: "int \<Rightarrow> nat option" where
  "Hugeint_TryCast v = (if 0 \<le> v \<and> v < 2 ^ 64 then Some (nat v) else None)"

text \<open>
  \<open>GetRange\<close>: the generic template returns \<^verbatim>\<open>max - min + 1\<close> converted to \<open>idx_t\<close>; the
  \<open>hugeint_t\<close> specialisation casts and throws when the cast fails.
\<close>

definition GetRange :: "LogicalTypeId \<Rightarrow> int \<Rightarrow> int \<Rightarrow> nat outcome" where
  "GetRange t mn mx =
     (case arith t (mx - mn) of
        Throws e \<Rightarrow> Throws e
      | Undefined \<Rightarrow> Undefined
      | Returns d \<Rightarrow>
          (case arith t (d + 1) of
             Throws e \<Rightarrow> Throws e
           | Undefined \<Rightarrow> Undefined
           | Returns r \<Rightarrow>
               if t = HUGEINT then
                 (case Hugeint_TryCast r of
                    Some val \<Rightarrow> Returns val
                  | None \<Rightarrow> Throws (OutOfRangeException
                              ''Range too large for bitstring aggregation'' []))
               else Returns (to_idx_t r)))"

section \<open>Heap buffers, \<open>string_t\<close> and the Bit primitives\<close>

text \<open>
  \<^verbatim>\<open>new char[len]\<close> and \<^verbatim>\<open>delete[]\<close>. An address is the index of its cell, so a new buffer
  never aliases an old one and a released address is never handed out again. A live cell
  records its size in bytes and the logical bits of the bitstring stored in it; a new
  buffer is uninitialised (no bits). The heap logs the addresses released, in order.
\<close>

type_synonym addr = nat

datatype cell = Live nat "bool list" | Released

record heap =
  cells :: "cell list"
  released :: "addr list"

definition new_char :: "nat \<Rightarrow> heap \<Rightarrow> addr \<times> heap" where
  "new_char len h = (length (cells h), h\<lparr>cells := cells h @ [Live len []]\<rparr>)"

definition is_live :: "heap \<Rightarrow> addr \<Rightarrow> bool" where
  "is_live h p = (p < length (cells h) \<and> cells h ! p \<noteq> Released)"

definition delete_array :: "addr \<Rightarrow> heap \<Rightarrow> heap outcome" where
  "delete_array p h =
     (if is_live h p
      then Returns (h\<lparr>cells := (cells h)[p := Released], released := released h @ [p]\<rparr>)
      else Undefined)"

text \<open>
  Modelled from the spec: \<open>string_t\<close> (declared outside these sources). The spec describes
  it as a small-string optimisation: short payloads live inside the struct, longer ones in
  a heap buffer; \<open>inl\<close> is the longest inlined length in bytes (taken as a parameter, the
  constant is not in these sources). A \<open>string_t\<close> made from a pointer and a short length
  copies the bytes into the struct.
\<close>

datatype string_t = Inlined nat "bool list" | Pointer nat addr

text \<open>Modelled from the spec: \<open>string_t::GetSize\<close>, the length in bytes.\<close>

fun GetSize :: "string_t \<Rightarrow> nat" where
  "GetSize (Inlined len bits) = len"
| "GetSize (Pointer len p) = len"

text \<open>Modelled from the spec: \<open>string_t::IsInlined\<close>, whether the payload lives in the struct.\<close>

fun IsInlined :: "string_t \<Rightarrow> bool" where
  "IsInlined (Inlined len bits) = True"
| "IsInlined (Pointer len p) = False"

text \<open>Reading the bits of a live buffer.\<close>

definition read_cell :: "heap \<Rightarrow> addr \<Rightarrow> bool list option" where
  "read_cell h p =
     (if p < length (cells h)
      then (case cells h ! p of Live len bits \<Rightarrow> Some bits | Released \<Rightarrow> None)
      else None)"

text \<open>
  Modelled from the spec: the constructor \<open>string_t(ptr, len)\<close>. A length of at most \<open>inl\<close>
  gives an inlined string holding a copy of the buffer's contents; a longer one keeps the
  pointer.
\<close>

definition make_string_t :: "nat \<Rightarrow> heap \<Rightarrow> addr \<Rightarrow> nat \<Rightarrow> string_t outcome" where
  "make_string_t inl h ptr len =
     (if len \<le> inl
      then (case read_cell h ptr of Some bits \<Rightarrow> Returns (Inlined len bits) | None \<Rightarrow> Undefined)
      else Returns (Pointer len ptr))"

text \<open>
  Modelled from the spec: \<open>string_t::GetDataUnsafe\<close>, the bits a \<open>string_t\<close> holds. Reading
  through a pointer to a released buffer is undefined.
\<close>

fun GetData :: "heap \<Rightarrow> string_t \<Rightarrow> bool list outcome" where
  "GetData h (Inlined len bits) = Returns bits"
| "GetData h (Pointer len p) =
     (case read_cell h p of Some bits \<Rightarrow> Returns bits | None \<Rightarrow> Undefined)"

text \<open>
  Modelled from the spec: a bitstring of \<open>n\<close> logical bits takes one header byte and
  \<open>n\<close> bits of payload, rounded up to whole bytes.
\<close>

definition bitstring_bytes :: "nat \<Rightarrow> nat" where
  "bitstring_bytes n = (n + 7) div 8 + 1"

text \<open>
  Modelled from the spec: writing through \<open>string_t::GetDataWriteable\<close>. Storing a bitstring
  writes the struct itself when the string is inlined and the heap buffer otherwise. A
  bitstring longer than the string, or a released buffer, is a write outside the allocation.
\<close>

fun store :: "heap \<Rightarrow> string_t \<Rightarrow> bool list \<Rightarrow> (string_t \<times> heap) outcome" where
  "store h (Inlined len old) bits =
     (if bitstring_bytes (length bits) \<le> len then Returns (Inlined len bits, h) else Undefined)"
| "store h (Pointer len p) bits =
     (if bitstring_bytes (length bits) \<le> len \<and> is_live h p
      then Returns (Pointer len p, h\<lparr>cells := (cells h)[p := Live len bits]\<rparr>)
      else Undefined)"

text \<open>
  Modelled from the spec: \<open>Bit::SetEmptyBitString(buf, n)\<close> (the Bit primitives are external
  collaborators of the aggregates). It initialises the header and a zero payload of \<open>n\<close>
  bits.
\<close>

definition SetEmptyBitString :: "heap \<Rightarrow> string_t \<Rightarrow> nat \<Rightarrow> (string_t \<times> heap) outcome" where
  "SetEmptyBitString h target n = store h target (replicate n False)"

text \<open>
  Modelled from the spec: \<open>Bit::SetBit(buf, offset, v)\<close>; an offset that is not a bit of the
  bitstring is left undefined.
\<close>

definition SetBit :: "heap \<Rightarrow> string_t \<Rightarrow> nat \<Rightarrow> bool \<Rightarrow> (string_t \<times> heap) outcome" where
  "SetBit h bit_string n new_value =
     (case GetData h bit_string of
        Returns bits \<Rightarrow>
          if n < length bits then store h bit_string (bits[n := new_value]) else Undefined
      | Throws e \<Rightarrow> Throws e
      | Undefined \<Rightarrow> Undefined)"

text \<open>
  Modelled from the spec: \<open>Bit::BitwiseAnd/Or/Xor(lhs, rhs, out)\<close>, bit by bit. Every call in
  bitagg.cpp passes the same string as \<open>rhs\<close> and \<open>out\<close>, so the model has one argument for
  both; operands of different lengths are left undefined.
\<close>

fun bit_function :: "bitop \<Rightarrow> bool \<Rightarrow> bool \<Rightarrow> bool" where
  "bit_function BitAndOperation a b = (a \<and> b)"
| "bit_function BitOrOperation a b = (a \<or> b)"
| "bit_function BitXorOperation a b = (a \<noteq> b)"

text \<open>Modelled from the spec: the three \<open>Bit::Bitwise\<close> functions, by operator.\<close>

definition Bitwise :: "bitop \<Rightarrow> heap \<Rightarrow> string_t \<Rightarrow> string_t \<Rightarrow> (string_t \<times> heap) outcome" where
  "Bitwise OP h lhs out =
     (case GetData h lhs of
        Returns a \<Rightarrow>
          (case GetData h out of
             Returns b \<Rightarrow>
               if length a = length b then store h out (map2 (bit_function OP) a b)
               else Undefined
           | Throws e \<Rightarrow> Throws e
           | Undefined \<Rightarrow> Undefined)
      | Throws e \<Rightarrow> Throws e
      | Undefined \<Rightarrow> Undefined)"

section \<open>Bitstring bitwise aggregates (\<open>BitStringBitwiseOperation\<close>)\<close>

text \<open>
  The state is a \<open>BitState<string_t>\<close>. A call works on the state and the heap and leaves
  both behind also when it throws, so every operation returns its status together with
  the state and the heap.
\<close>

type_synonym 's result = "unit outcome \<times> 's \<times> heap"

text \<open>
  \<open>Assign\<close>: an inlined input is copied by value; otherwise a buffer of the input's length
  is allocated, the payload copied into it (\<open>memcpy\<close>) and the state's value made from the
  new pointer.
\<close>

definition copy_to_new_buffer :: "nat \<Rightarrow> heap \<Rightarrow> string_t \<Rightarrow> (string_t \<times> heap) outcome" where
  "copy_to_new_buffer inl h input =
     (let len = GetSize input; (ptr, h1) = new_char len h in
        case GetData h1 input of
          Returns bits \<Rightarrow>
            (let h2 = h1\<lparr>cells := (cells h1)[ptr := Live len bits]\<rparr> in
               case make_string_t inl h2 ptr len of
                 Returns s \<Rightarrow> Returns (s, h2)
               | Throws e \<Rightarrow> Throws e
               | Undefined \<Rightarrow> Undefined)
        | Throws e \<Rightarrow> Throws e
        | Undefined \<Rightarrow> Undefined)"

definition BitStringBitwiseOperation_Assign ::
  "nat \<Rightarrow> string_t BitState \<times> heap \<Rightarrow> string_t \<Rightarrow> string_t BitState result" where
  "BitStringBitwiseOperation_Assign inl sh input =
     (let (state, h) = sh in
        if IsInlined input then (Returns (), state\<lparr>value := input\<rparr>, h)
        else (case copy_to_new_buffer inl h input of
                Returns (s, h') \<Rightarrow> (Returns (), state\<lparr>value := s\<rparr>, h')
              | Throws e \<Rightarrow> (Throws e, state, h)
              | Undefined \<Rightarrow> (Undefined, state, h)))"

text \<open>\<open>Execute\<close> of the three subclasses: \<open>Bit::BitwiseAnd/Or/Xor(input, state->value, state->value)\<close>.\<close>

definition BitStringBitwiseOperation_Execute ::
  "bitop \<Rightarrow> string_t BitState \<times> heap \<Rightarrow> string_t \<Rightarrow> string_t BitState result" where
  "BitStringBitwiseOperation_Execute OP sh input =
     (let (state, h) = sh in
        case Bitwise OP h input (value state) of
          Returns (s, h') \<Rightarrow> (Returns (), state\<lparr>value := s\<rparr>, h')
        | Throws e \<Rightarrow> (Throws e, state, h)
        | Undefined \<Rightarrow> (Undefined, state, h))"

text \<open>\<open>BitwiseOperation::Operation\<close> and \<open>Combine\<close>, instantiated with the bitstring \<open>Assign\<close> and \<open>Execute\<close>.\<close>

definition BitStringBitwiseOperation_Operation ::
  "nat \<Rightarrow> bitop \<Rightarrow> string_t BitState \<times> heap \<Rightarrow> string_t \<Rightarrow> string_t BitState result" where
  "BitStringBitwiseOperation_Operation inl OP sh input =
     (let (state, h) = sh in
        if \<not> is_set state then
          (case BitStringBitwiseOperation_Assign inl (state, h) input of
             (Returns u, state', h') \<Rightarrow> (Returns (), state'\<lparr>is_set := True\<rparr>, h')
           | other \<Rightarrow> other)
        else BitStringBitwiseOperation_Execute OP (state, h) input)"

definition BitStringBitwiseOperation_Combine ::
  "nat \<Rightarrow> bitop \<Rightarrow> string_t BitState \<Rightarrow> string_t BitState \<times> heap \<Rightarrow> string_t BitState result" where
  "BitStringBitwiseOperation_Combine inl OP source th =
     (let (target, h) = th in
        if \<not> is_set source then (Returns (), target, h)
        else if \<not> is_set target then
          (case BitStringBitwiseOperation_Assign inl (target, h) (value source) of
             (Returns u, target', h') \<Rightarrow> (Returns (), target'\<lparr>is_set := True\<rparr>, h')
           | other \<Rightarrow> other)
        else BitStringBitwiseOperation_Execute OP (target, h) (value source))"

definition BitStringBitwiseOperation_Destroy :: "string_t BitState \<Rightarrow> heap \<Rightarrow> heap outcome" where
  "BitStringBitwiseOperation_Destroy state h =
     (if is_set state then
        (case value state of
           Pointer len p \<Rightarrow> delete_array p h
         | Inlined len bits \<Rightarrow> Returns h)
      else Returns h)"

text \<open>\<open>Finalize\<close>: NULL (\<open>None\<close>) for an unset state, else a copy of the state's bitstring.\<close>

definition BitStringBitwiseOperation_Finalize ::
  "string_t BitState \<Rightarrow> heap \<Rightarrow> bool list option outcome" where
  "BitStringBitwiseOperation_Finalize state h =
     (if \<not> is_set state then Returns None
      else (case GetData h (value state) of
              Returns bits \<Rightarrow> Returns (Some bits)
            | Throws e \<Rightarrow> Throws e
            | Undefined \<Rightarrow> Undefined))"

section \<open>Range-bitmap aggregate (\<open>BitStringAggOperation\<close>)\<close>

text \<open>\<open>Value\<close>: a null flag and the stored integer, which \<open>GetValueUnsafe\<close> reads unchecked.\<close>

datatype Value = Value (IsNull: bool) (GetValueUnsafe: int)

record BitstringAggBindData =
  min_bd :: Value
  max_bd :: Value

record BitAggState = "string_t BitState" +
  min_s :: int
  max_s :: int

definition BitStringAggOperation_Initialize :: "BitAggState \<Rightarrow> BitAggState" where
  "BitStringAggOperation_Initialize state = state\<lparr>is_set := False\<rparr>"

text \<open>
  \<open>Execute\<close>: the generic template passes \<^verbatim>\<open>input - min\<close>, converted to \<open>idx_t\<close>, to
  \<open>Bit::SetBit\<close>; the \<open>hugeint_t\<close> overload casts first and throws when the cast fails.
\<close>

definition BitStringAggOperation_Execute ::
  "LogicalTypeId \<Rightarrow> BitAggState \<times> heap \<Rightarrow> int \<Rightarrow> int \<Rightarrow> BitAggState result" where
  "BitStringAggOperation_Execute t sh input mn =
     (let (state, h) = sh in
        case arith t (input - mn) of
          Throws e \<Rightarrow> (Throws e, state, h)
        | Undefined \<Rightarrow> (Undefined, state, h)
        | Returns d \<Rightarrow>
            (case (if t = HUGEINT then Hugeint_TryCast d else Some (to_idx_t d)) of
               None \<Rightarrow> (Throws (OutOfRangeException
                          ''Range too large for bitstring aggregation'' []), state, h)
             | Some val \<Rightarrow>
                 (case SetBit h (value state) val True of
                    Returns (s, h') \<Rightarrow> (Returns (), state\<lparr>value := s\<rparr>, h')
                  | Throws e \<Rightarrow> (Throws e, state, h)
                  | Undefined \<Rightarrow> (Undefined, state, h))))"

text \<open>
  The first half of \<open>Operation\<close>, run when the state is not set: copy min and max from the
  bind data, compute and check the range, allocate and clear the bitmap, set \<open>is_set\<close>.
\<close>

definition first_row ::
  "nat \<Rightarrow> LogicalTypeId \<Rightarrow> BitstringAggBindData \<Rightarrow> BitAggState \<times> heap \<Rightarrow> BitAggState result" where
  "first_row inl t bind_agg_data sh =
     (let (state0, h) = sh;
          state = state0\<lparr>min_s := GetValueUnsafe (min_bd bind_agg_data),
                         max_s := GetValueUnsafe (max_bd bind_agg_data)\<rparr> in
        case GetRange t (GetValueUnsafe (min_bd bind_agg_data))
                        (GetValueUnsafe (max_bd bind_agg_data)) of
          Throws e \<Rightarrow> (Throws e, state, h)
        | Undefined \<Rightarrow> (Undefined, state, h)
        | Returns bit_range \<Rightarrow>
            if bit_range > 1000000000 then
              (Throws (OutOfRangeException
                 ''The range between min and max value is too large for bitstring aggregation'' []),
               state, h)
            else
              (let len = (if bit_range mod 8 \<noteq> 0 then bit_range div 8 + 1 else bit_range div 8) + 1;
                   (ptr, h1) = new_char len h in
                 case make_string_t inl h1 ptr len of
                   Throws e \<Rightarrow> (Throws e, state, h1)
                 | Undefined \<Rightarrow> (Undefined, state, h1)
                 | Returns target0 \<Rightarrow>
                     (case SetEmptyBitString h1 target0 bit_range of
                        Throws e \<Rightarrow> (Throws e, state, h1)
                      | Undefined \<Rightarrow> (Undefined, state, h1)
                      | Returns (target, h2) \<Rightarrow>
                          (Returns (), state\<lparr>value := target, is_set := True\<rparr>, h2))))"

definition BitStringAggOperation_Operation ::
  "nat \<Rightarrow> LogicalTypeId \<Rightarrow> BitstringAggBindData \<Rightarrow> BitAggState \<times> heap \<Rightarrow> int
     \<Rightarrow> BitAggState result" where
  "BitStringAggOperation_Operation inl t bind_agg_data sh input =
     (case (if \<not> is_set (fst sh) then first_row inl t bind_agg_data sh
            else (Returns (), sh)) of
        (Returns u, state, h) \<Rightarrow>
          if input \<ge> min_s state \<and> input \<le> max_s state then
            BitStringAggOperation_Execute t (state, h) input
              (GetValueUnsafe (min_bd bind_agg_data))
          else
            (Throws (OutOfRangeException
               ''Value %s is outside of provided min and max range (%s <-> %s)''
               [input, min_s state, max_s state]), state, h)
      | other \<Rightarrow> other)"

text \<open>\<open>ConstantOperation\<close> calls \<open>Operation\<close> once, whatever the count.\<close>

definition BitStringAggOperation_ConstantOperation ::
  "nat \<Rightarrow> LogicalTypeId \<Rightarrow> BitstringAggBindData \<Rightarrow> BitAggState \<times> heap \<Rightarrow> int \<Rightarrow> nat
     \<Rightarrow> BitAggState result" where
  "BitStringAggOperation_ConstantOperation inl t bind_agg_data sh input count =
     BitStringAggOperation_Operation inl t bind_agg_data sh input"

text \<open>\<open>Assign\<close> and \<open>Combine\<close>. \<open>Combine\<close> into an unset target sets the value and \<open>is_set\<close> only.\<close>

definition BitStringAggOperation_Assign ::
  "nat \<Rightarrow> BitAggState \<times> heap \<Rightarrow> string_t \<Rightarrow> BitAggState result" where
  "BitStringAggOperation_Assign inl sh input =
     (let (state, h) = sh in
        if IsInlined input then (Returns (), state\<lparr>value := input\<rparr>, h)
        else (case copy_to_new_buffer inl h input of
                Returns (s, h') \<Rightarrow> (Returns (), state\<lparr>value := s\<rparr>, h')
              | Throws e \<Rightarrow> (Throws e, state, h)
              | Undefined \<Rightarrow> (Undefined, state, h)))"

definition BitStringAggOperation_Combine ::
  "nat \<Rightarrow> BitAggState \<Rightarrow> BitAggState \<times> heap \<Rightarrow> BitAggState result" where
  "BitStringAggOperation_Combine inl source th =
     (let (target, h) = th in
        if \<not> is_set source then (Returns (), target, h)
        else if \<not> is_set target then
          (case BitStringAggOperation_Assign inl (target, h) (value source) of
             (Returns u, target', h') \<Rightarrow> (Returns (), target'\<lparr>is_set := True\<rparr>, h')
           | other \<Rightarrow> other)
        else
          (case Bitwise BitOrOperation h (value source) (value target) of
             Returns (s, h') \<Rightarrow> (Returns (), target\<lparr>value := s\<rparr>, h')
           | Throws e \<Rightarrow> (Throws e, target, h)
           | Undefined \<Rightarrow> (Undefined, target, h)))"

definition BitStringAggOperation_Finalize :: "BitAggState \<Rightarrow> heap \<Rightarrow> bool list option outcome" where
  "BitStringAggOperation_Finalize state h =
     (if \<not> is_set state then Returns None
      else (case GetData h (value state) of
              Returns bits \<Rightarrow> Returns (Some bits)
            | Throws e \<Rightarrow> Throws e
            | Undefined \<Rightarrow> Undefined))"

definition BitStringAggOperation_Destroy :: "BitAggState \<Rightarrow> heap \<Rightarrow> heap outcome" where
  "BitStringAggOperation_Destroy state h =
     (if is_set state then
        (case value state of
           Pointer len p \<Rightarrow> delete_array p h
         | Inlined len bits \<Rightarrow> Returns h)
      else Returns h)"

text \<open>
  Modelled from the spec: the executor's update loop (outside these sources) folds the
  rows of a group into its state with one \<open>Operation\<close> call per row; an exception ends it.
\<close>

fun update_rows ::
  "nat \<Rightarrow> LogicalTypeId \<Rightarrow> BitstringAggBindData \<Rightarrow> BitAggState \<times> heap \<Rightarrow> int list
     \<Rightarrow> BitAggState result" where
  "update_rows inl t bind_agg_data sh [] = (Returns (), sh)"
| "update_rows inl t bind_agg_data sh (x # xs) =
     (case BitStringAggOperation_Operation inl t bind_agg_data sh x of
        (Returns u, state, h) \<Rightarrow> update_rows inl t bind_agg_data (state, h) xs
      | other \<Rightarrow> other)"

section \<open>Statistics propagation of \<open>bitstring_agg\<close>\<close>

text \<open>
  \<open>BitstringPropagateStats\<close> receives the statistics of the child column and of the node,
  either of which may be a null pointer. It returns \<open>nullptr\<close> on every path that does not
  throw; its effect is on the bind data, which the model returns.
\<close>

record NumericStatistics =
  min_st :: Value
  max_st :: Value

record NodeStatistics =
  has_max_cardinality :: bool

definition stats_error_message :: string where
  "stats_error_message =
     ''Could not retrieve required statistics. Alternatively, try by providing the statistics '' @
     ''explicitly: BITSTRING_AGG(col, min, max) ''"

definition BitstringPropagateStats ::
  "BitstringAggBindData \<Rightarrow> NumericStatistics option \<Rightarrow> NodeStatistics option
     \<Rightarrow> BitstringAggBindData outcome" where
  "BitstringPropagateStats bind_data child_stats node_stats =
     (case child_stats of
        None \<Rightarrow> Throws (BinderException stats_error_message)
      | Some numeric_stats \<Rightarrow>
          (case node_stats of
             None \<Rightarrow> Throws (BinderException stats_error_message)
           | Some ns \<Rightarrow>
               if has_max_cardinality ns then
                 (if IsNull (min_st numeric_stats) \<or> IsNull (max_st numeric_stats)
                  then Returns bind_data
                  else Returns (bind_data\<lparr>min_bd := min_st numeric_stats,
                                           max_bd := max_st numeric_stats\<rparr>))
               else Throws (BinderException stats_error_message)))"

text \<open>
  \<open>BindBitString\<close> registers two overloads: the one with a single argument has
  \<open>BitstringPropagateStats\<close> as its statistics callback, the one with three arguments has
  none (\<^verbatim>\<open>function.statistics = nullptr\<close>).
\<close>

definition propagate_statistics ::
  "nat \<Rightarrow> BitstringAggBindData \<Rightarrow> NumericStatistics option \<Rightarrow> NodeStatistics option
     \<Rightarrow> BitstringAggBindData outcome" where
  "propagate_statistics arguments bind_data child_stats node_stats =
     (if arguments = 1 then BitstringPropagateStats bind_data child_stats node_stats
      else Returns bind_data)"

section \<open>HyperLogLog sketch (hyperloglog.cpp)\<close>

text \<open>
  The register array \<^verbatim>\<open>uint8_t k[M]\<close> is a list of bytes of length \<open>M\<close>. The class
  declaration is outside these sources, so the constant \<open>M\<close> is a parameter of every
  function that loops over the registers.
\<close>

text \<open>
  Modelled from the spec: \<open>HyperLogLog::Update(i, v)\<close> (declared outside these sources) sets
  \<open>k[i] = max(k[i], v)\<close>. Every caller below passes an index below \<open>M\<close>.
\<close>

definition Update :: "nat \<Rightarrow> 8 word \<Rightarrow> 8 word list \<Rightarrow> 8 word list" where
  "Update i z k = k[i := max (k ! i) z]"

text \<open>Modelled from the spec: \<open>HyperLogLog::GetRegister(i)\<close> (declared outside these sources) reads \<open>k[i]\<close>.\<close>

definition GetRegister :: "8 word list \<Rightarrow> nat \<Rightarrow> 8 word" where
  "GetRegister k i = k ! i"

text \<open>
  Modelled from the spec: the constructor of \<open>HyperLogLog\<close> (declared outside these sources);
  a fresh sketch has all registers zero.
\<close>

definition fresh_sketch :: "nat \<Rightarrow> 8 word list" where
  "fresh_sketch M = replicate M 0"

text \<open>\<open>Merge\<close> (Algorithm 2): \<^verbatim>\<open>for (idx_t i = 0; i < M; ++i) Update(i, other.k[i]);\<close>\<close>

definition Merge :: "nat \<Rightarrow> 8 word list \<Rightarrow> 8 word list \<Rightarrow> 8 word list" where
  "Merge M other k = fold (\<lambda>i k'. Update i (other ! i) k') [0..<M] k"

text \<open>
  Modelled from the spec: the leading-zero count that \<open>InsertElement\<close> takes of the residual,
  a value of \<open>width\<close> bits: the width less the number of significant bits.
\<close>

fun bit_length :: "nat \<Rightarrow> nat" where
  "bit_length n = (if n = 0 then 0 else Suc (bit_length (n div 2)))"

text \<open>Modelled from the spec: the leading-zero count of a value of \<open>width\<close> bits.\<close>

definition leading_zero_count :: "nat \<Rightarrow> nat \<Rightarrow> nat" where
  "leading_zero_count width v = width - bit_length v"

text \<open>
  Modelled from the spec: \<open>HyperLogLog::InsertElement(hash)\<close> (declared outside these
  sources) splits the 64-bit hash into the low \<open>log2(M)\<close> bits, the register index, and the
  residual; \<open>zeros\<close> is the residual's leading-zero count plus one, clamped to \<open>Q + 1\<close>; the
  register becomes the maximum of itself and \<open>zeros\<close>. \<open>P\<close> is \<open>log2(M)\<close>, so the residual has
  \<open>64 - P\<close> bits; \<open>Q\<close> is a constant of the class and a parameter here.
\<close>

definition InsertElement :: "nat \<Rightarrow> nat \<Rightarrow> 64 word \<Rightarrow> 8 word list \<Rightarrow> 8 word list" where
  "InsertElement P Q hash k =
     (let i = unat hash mod 2 ^ P;
          residual = unat hash div 2 ^ P;
          zeros = min (leading_zero_count (64 - P) residual + 1) (Q + 1)
      in Update i (of_nat zeros) k)"

text \<open>Modelled from the spec: building a sketch from a stream inserts its hashes one by one.\<close>

definition insert_all :: "nat \<Rightarrow> nat \<Rightarrow> 64 word list \<Rightarrow> 8 word list \<Rightarrow> 8 word list" where
  "insert_all P Q hashes k = fold (InsertElement P Q) hashes k"

section \<open>Conversion between the old and the new sketch (class \<open>HLLV1\<close>)\<close>

text \<open>
  \<open>HLLV1\<close> uses constants and functions declared outside these sources, and two functions
  of these sources whose value is computed in floating point. All are parameters:
  \<^item> \<open>sketch_M\<close>: the constant \<open>HyperLogLog::M\<close>;
  \<^item> \<open>num_registers\<close>, \<open>maximum_zeros\<close>: the results of \<open>duckdb_hll::num_registers()\<close> and
    \<open>duckdb_hll::maximum_zeros()\<close>;
  \<^item> \<open>sketch_Count\<close>: \<open>HyperLogLog::Count\<close>, the histogram of the registers passed through
    the floating-point estimator;
  \<^item> \<open>hll_count\<close>: \<open>duckdb_hll::hll_count\<close> on the old sketch, \<open>None\<close> when it does not
    report \<open>HLL_C_OK\<close>;
  \<^item> \<open>IsWithinAcceptableRange\<close>: the quotient test of \<open>HLLV1\<close>, computed in \<open>double\<close>.
\<close>

record hll_consts =
  sketch_M :: nat
  num_registers :: nat
  maximum_zeros :: "8 word"
  sketch_Count :: "8 word list \<Rightarrow> nat"
  hll_count :: "8 word list \<Rightarrow> nat option"
  IsWithinAcceptableRange :: "nat \<Rightarrow> nat \<Rightarrow> bool"

text \<open>
  Modelled from the spec: \<open>duckdb_hll::get_register\<close>. The old sketch is a dense array of
  \<open>num_registers\<close> registers, each holding a zero count of at most \<open>maximum_zeros\<close>.
\<close>

definition get_register :: "8 word list \<Rightarrow> nat \<Rightarrow> 8 word" where
  "get_register hll index = hll ! index"

text \<open>
  Modelled from the spec: \<open>duckdb_hll::set_register\<close> stores a zero count, which
  \<open>get_register\<close> reads back.
\<close>

definition set_register :: "8 word list \<Rightarrow> nat \<Rightarrow> 8 word \<Rightarrow> 8 word list" where
  "set_register hll index zeros = hll[index := zeros]"

text \<open>
  Modelled from the spec: the constructor of \<open>HLLV1\<close> (\<open>hll_create\<close> and
  \<open>hllSparseToDense\<close> are outside these sources): a dense sketch with all registers zero.
\<close>

definition new_HLLV1 :: "hll_consts \<Rightarrow> 8 word list" where
  "new_HLLV1 c = replicate (num_registers c) 0"

text \<open>\<^verbatim>\<open>const idx_t mult = duckdb_hll::num_registers() / HyperLogLog::M;\<close>\<close>

definition mult :: "hll_consts \<Rightarrow> nat" where
  "mult c = num_registers c div sketch_M c"

text \<open>\<open>HLLV1::Count\<close> throws when \<open>hll_count\<close> fails.\<close>

definition V1_Count :: "hll_consts \<Rightarrow> 8 word list \<Rightarrow> nat outcome" where
  "V1_Count c hll =
     (case hll_count c hll of
        None \<Rightarrow> Throws (InternalException ''Could not count HLL?'')
      | Some result \<Rightarrow> Returns result)"

text \<open>
  \<open>ToNew\<close>: each new register is updated with the maximum of its \<open>mult\<close> old registers.
  (The \<open>D_ASSERT\<close>s of \<open>ToNew\<close> and \<open>FromNew\<close> are debug checks and compile to nothing in
  a release build.)
\<close>

definition ToNew :: "hll_consts \<Rightarrow> 8 word list \<Rightarrow> 8 word list \<Rightarrow> 8 word list" where
  "ToNew c hll new_k =
     fold (\<lambda>i k.
             Update i (fold (\<lambda>j max_old. max max_old (get_register hll (i * mult c + j)))
                         [0..<mult c] 0) k)
          [0..<sketch_M c] new_k"

text \<open>
  \<open>FromNew\<close>, first loop: the first of every \<open>mult\<close> old registers gets the new register,
  capped at \<open>maximum_zeros\<close>; \<open>sum\<close> (an \<open>idx_t\<close>) adds these values up.
\<close>

definition FromNew_anchors :: "hll_consts \<Rightarrow> 8 word list \<Rightarrow> 8 word list \<Rightarrow> 8 word list \<times> nat" where
  "FromNew_anchors c new_k hll =
     fold (\<lambda>i (h, sum).
             let max_new = min (GetRegister new_k i) (maximum_zeros c)
             in (set_register h (i * mult c) max_new, (sum + unat max_new) mod 2 ^ 64))
          [0..<sketch_M c] (hll, 0)"

text \<open>
  Modelled from the spec: \<open>NumericCast<uint8_t>\<close> (declared outside these sources) narrows
  to an 8-bit unsigned value; a value that does not fit is an internal error.
\<close>

definition NumericCast_uint8 :: "nat \<Rightarrow> 8 word outcome" where
  "NumericCast_uint8 v =
     (if v < 256 then Returns (of_nat v)
      else Throws (InternalException ''Information loss on integer cast''))"

text \<open>The two inner loops: all other old registers get \<open>min(max_new, default_val)\<close>.\<close>

definition FromNew_fill :: "hll_consts \<Rightarrow> 8 word list \<Rightarrow> 8 word \<Rightarrow> 8 word list \<Rightarrow> 8 word list" where
  "FromNew_fill c new_k default_val hll =
     fold (\<lambda>i h.
             let max_new = min (GetRegister new_k i) (maximum_zeros c)
             in fold (\<lambda>j h'. set_register h' (i * mult c + j) (min max_new default_val))
                  [1..<mult c] h)
          [0..<sketch_M c] hll"

text \<open>
  The loop \<^verbatim>\<open>for (uint8_t epsilon = 4; epsilon >= 1; epsilon--)\<close>, with \<open>Suc e\<close> for
  \<open>epsilon\<close>: fill, stop when the two counts are close enough, else move \<open>default_val\<close>
  (an 8-bit value, so the step wraps around) down or up by \<open>epsilon\<close>.
\<close>

fun FromNew_search ::
  "hll_consts \<Rightarrow> 8 word list \<Rightarrow> nat \<Rightarrow> nat \<Rightarrow> 8 word \<Rightarrow> 8 word list \<Rightarrow> 8 word list outcome" where
  "FromNew_search c new_k new_hll_count 0 default_val hll = Returns hll"
| "FromNew_search c new_k new_hll_count (Suc e) default_val hll =
     (let hll' = FromNew_fill c new_k default_val hll in
        case V1_Count c hll' of
          Throws err \<Rightarrow> Throws err
        | Undefined \<Rightarrow> Undefined
        | Returns count \<Rightarrow>
            if IsWithinAcceptableRange c new_hll_count count then Returns hll'
            else FromNew_search c new_k new_hll_count e
                   (if count > sketch_Count c new_k then default_val - of_nat (Suc e)
                    else default_val + of_nat (Suc e))
                   hll')"

definition FromNew :: "hll_consts \<Rightarrow> 8 word list \<Rightarrow> 8 word list \<Rightarrow> 8 word list outcome" where
  "FromNew c new_k hll =
     (let new_hll_count = sketch_Count c new_k in
        if new_hll_count = 0 then Returns hll
        else
          (let (hll1, sum) = FromNew_anchors c new_k hll in
             case NumericCast_uint8 (sum div sketch_M c) of
               Throws err \<Rightarrow> Throws err
             | Undefined \<Rightarrow> Undefined
             | Returns avg \<Rightarrow> FromNew_search c new_k new_hll_count 4 avg hll1))"

section \<open>Predicates used in the proofs\<close>

text \<open>
  The state's value is a readable and writable bitmap with the given logical bits: it can
  be read, it has room for them, and a buffer it points to is live.
\<close>

definition holds :: "BitAggState \<Rightarrow> heap \<Rightarrow> bool list \<Rightarrow> bool" where
  "holds s h bits =
     (GetData h (value s) = Returns bits
      \<and> bitstring_bytes (length bits) \<le> GetSize (value s)
      \<and> (case value s of Pointer len p \<Rightarrow> is_live h p | Inlined len b \<Rightarrow> True))"

text \<open>
  The computation of \<open>max - min + 1\<close> in \<open>GetRange\<close> goes wrong: a signed overflow, or an
  unsigned result that wrapped around.
\<close>

definition range_wraps :: "LogicalTypeId \<Rightarrow> int \<Rightarrow> int \<Rightarrow> bool" where
  "range_wraps t mn mx =
     (GetRange t mn mx = Undefined
      \<or> (t = UINTEGER \<and> 2 ^ 32 \<le> mx - mn + 1)
      \<or> (t = UBIGINT \<and> 2 ^ 64 \<le> mx - mn + 1))"

text \<open>
  The value \<open>FromNew\<close> stores in the first old register of block \<open>i\<close>, and the shape of an
  old sketch built from a new one: each block starts with that value and holds nothing
  larger.
\<close>

definition anchor :: "hll_consts \<Rightarrow> 8 word list \<Rightarrow> nat \<Rightarrow> 8 word" where
  "anchor c new_k i = min (new_k ! i) (maximum_zeros c)"

definition anchored :: "hll_consts \<Rightarrow> 8 word list \<Rightarrow> 8 word list \<Rightarrow> bool" where
  "anchored c new_k hll =
     (length hll = num_registers c \<and>
      (\<forall>i < sketch_M c.
         hll ! (i * mult c) = anchor c new_k i
         \<and> (\<forall>j < mult c. hll ! (i * mult c + j) \<le> anchor c new_k i)))"

text \<open>
  A small instance for the examples: two new registers, eight old ones (so \<open>mult = 4\<close>),
  zero counts capped at 53; the counts and the quotient test are stand-ins.
\<close>

definition example_consts :: hll_consts where
  "example_consts =
     \<lparr>sketch_M = 2, num_registers = 8, maximum_zeros = 53, sketch_Count = length,
      hll_count = Some \<circ> length, IsWithinAcceptableRange = (\<le>)\<rparr>"

section \<open>Properties of the scalar bitwise aggregates\<close>

subsection \<open>XOR broadcast\<close>

lemma fold_const_funpow: "fold (\<lambda>i. f) [0..<n] s = (f ^^ n) s"
  by (induction n arbitrary: s) (simp_all)

lemma xor_iter_set:
  "is_set s \<Longrightarrow> ((\<lambda>st. Operation BitXorOperation st x) ^^ n) s
     = s\<lparr>value := (if odd n then value s XOR x else value s)\<rparr>"
  by (induction n) (auto simp: Operation_def xor.assoc)

lemma xor_iter_unset:
  assumes "\<not> is_set s"
  shows "((\<lambda>st. Operation BitXorOperation st x) ^^ Suc n) s
     = s\<lparr>is_set := True, value := (if even n then x else 0)\<rparr>"
proof -
  let ?s1 = "Operation BitXorOperation s x"
  have s1: "?s1 = s\<lparr>is_set := True, value := x\<rparr>"
    using assms by (simp add: Operation_def Assign_def)
  have "((\<lambda>st. Operation BitXorOperation st x) ^^ Suc n) s
          = ((\<lambda>st. Operation BitXorOperation st x) ^^ n) ?s1"
    by (simp del: funpow.simps add: funpow_Suc_right)
  also have "\<dots> = ?s1\<lparr>value := (if odd n then value ?s1 XOR x else value ?s1)\<rparr>"
    by (rule xor_iter_set) (simp add: s1)
  finally show ?thesis by (simp add: s1)
qed

text \<open>
  Claim C5 (bit_xor constant broadcast). \<open>ConstantOperation\<close> of the XOR aggregate with
  count \<open>n\<close> is \<open>n\<close> successive \<open>Operation\<close> calls. An unset state ends holding
  \<open>x\<close> when \<open>n\<close> is odd; a state holding \<open>v\<close> ends holding \<open>v\<close> XOR-ed with \<open>x\<close>
  \<open>n\<close> times, which is \<open>v XOR x\<close> for odd \<open>n\<close> and \<open>v\<close> for even \<open>n\<close>.
\<close>

theorem bit_xor_constant_operation_parity:
  fixes state :: "('a::len) word BitState" and x :: "'a word"
  shows "ConstantOperation BitXorOperation state x n
           = ((\<lambda>st. Operation BitXorOperation st x) ^^ n) state
       \<and> (\<not> is_set state \<and> odd n \<longrightarrow>
           ConstantOperation BitXorOperation state x n = state\<lparr>is_set := True, value := x\<rparr>)
       \<and> (is_set state \<longrightarrow>
           ConstantOperation BitXorOperation state x n
             = state\<lparr>value := (if odd n then value state XOR x else value state)\<rparr>)"
proof (intro conjI impI)
  show eq: "ConstantOperation BitXorOperation state x n
           = ((\<lambda>st. Operation BitXorOperation st x) ^^ n) state"
    by (simp add: fold_const_funpow)
  { assume "\<not> is_set state \<and> odd n"
    then obtain m where "\<not> is_set state" and n: "n = Suc m" and "even m"
      by (cases n) auto
    then show "ConstantOperation BitXorOperation state x n = state\<lparr>is_set := True, value := x\<rparr>"
      using xor_iter_unset [where s = state and x = x and n = m] by (simp add: fold_const_funpow) }
  { assume "is_set state"
    then show "ConstantOperation BitXorOperation state x n
             = state\<lparr>value := (if odd n then value state XOR x else value state)\<rparr>"
      unfolding eq by (rule xor_iter_set) }
qed

text \<open>The spec's scenario: 5 broadcast three times into an unset state gives 5, into a
  state holding 3 gives 6.\<close>

theorem bit_xor_constant_operation_parity_witness:
  "ConstantOperation BitXorOperation \<lparr>is_set = False, value = 0 :: 32 word\<rparr> 5 3
      = \<lparr>is_set = True, value = 5\<rparr>
   \<and> ConstantOperation BitXorOperation \<lparr>is_set = True, value = 3 :: 32 word\<rparr> 5 3
      = \<lparr>is_set = True, value = 6\<rparr>
   \<and> ConstantOperation BitXorOperation \<lparr>is_set = True, value = 3 :: 32 word\<rparr> 5 3
      = ((\<lambda>st. Operation BitXorOperation st 5) ^^ 3) \<lparr>is_set = True, value = 3 :: 32 word\<rparr>"
  using bit_xor_constant_operation_parity [of "\<lparr>is_set = False, value = 0 :: 32 word\<rparr>" 5 3]
        bit_xor_constant_operation_parity [of "\<lparr>is_set = True, value = 3 :: 32 word\<rparr>" 5 3]
  by (simp add: Operation_def Assign_def eval_nat_numeral)

section \<open>Properties of the range-bitmap aggregate\<close>

subsection \<open>Correctness of the bitmap\<close>

lemma arith_small: "0 \<le> v \<Longrightarrow> v \<le> 1000000000 \<Longrightarrow> arith t v = Returns v"
  by (cases t) (simp_all add: fits_def)

lemma GetRange_small:
  assumes "mn \<le> mx" "mx - mn + 1 \<le> 1000000000"
  shows "GetRange t mn mx = Returns (nat (mx - mn + 1))"
proof -
  have a: "arith t (mx - mn) = Returns (mx - mn)"
    using assms by (intro arith_small) simp_all
  have b: "arith t (mx - mn + 1) = Returns (mx - mn + 1)"
    using assms by (intro arith_small) simp_all
  have c: "Hugeint_TryCast (mx - mn + 1) = Some (nat (mx - mn + 1))"
    using assms by (simp add: Hugeint_TryCast_def)
  have d: "to_idx_t (mx - mn + 1) = nat (mx - mn + 1)"
    using assms by (simp add: to_idx_t_def)
  show ?thesis by (simp add: GetRange_def a b c d)
qed

lemma len_bitstring_bytes:
  "(if n mod 8 \<noteq> 0 then n div 8 + 1 else n div 8) + 1 = bitstring_bytes n"
  unfolding bitstring_bytes_def by presburger

lemma read_new_char:
  "new_char len h = (ptr, h1) \<Longrightarrow> read_cell h1 ptr = Some [] \<and> is_live h1 ptr"
  by (auto simp: new_char_def read_cell_def is_live_def)

lemma first_row_result:
  assumes "mn \<le> mx" "mx - mn + 1 \<le> 1000000000"
    and bd: "GetValueUnsafe (min_bd bd) = mn" "GetValueUnsafe (max_bd bd) = mx"
  shows "first_row inl t bd (s0, h) =
           (let R = nat (mx - mn + 1); L = bitstring_bytes R in
              (Returns (),
               s0\<lparr>min_s := mn, max_s := mx,
                   value := (if L \<le> inl then Inlined L (replicate R False)
                             else Pointer L (length (cells h))),
                   is_set := True\<rparr>,
               h\<lparr>cells := cells h @ [Live L (if L \<le> inl then [] else replicate R False)]\<rparr>))"
proof -
  let ?R = "nat (mx - mn + 1)"
  have R: "\<not> ?R > 1000000000" using assms by simp
  show ?thesis
    unfolding first_row_def len_bitstring_bytes
    using R
    by (simp add: bd GetRange_small [OF assms(1,2)] Let_def new_char_def make_string_t_def
          read_cell_def SetEmptyBitString_def is_live_def)
qed

lemma first_row_ok:
  assumes "mn \<le> mx" "mx - mn + 1 \<le> 1000000000"
    and bd: "GetValueUnsafe (min_bd bd) = mn" "GetValueUnsafe (max_bd bd) = mx"
  shows "\<exists>s h'. first_row inl t bd (s0, h) = (Returns (), s, h')
           \<and> is_set s \<and> min_s s = mn \<and> max_s s = mx
           \<and> holds s h' (replicate (nat (mx - mn + 1)) False)"
proof -
  let ?R = "nat (mx - mn + 1)"
  have R: "\<not> ?R > 1000000000" using assms by simp
  obtain ptr h1 where nc: "new_char (bitstring_bytes ?R) h = (ptr, h1)"
    by fastforce
  note rd = read_new_char [OF nc]
  have "first_row inl t bd (s0, h) =
          (case make_string_t inl h1 ptr (bitstring_bytes ?R) of
             Throws e \<Rightarrow> (Throws e, s0\<lparr>min_s := mn, max_s := mx\<rparr>, h1)
           | Undefined \<Rightarrow> (Undefined, s0\<lparr>min_s := mn, max_s := mx\<rparr>, h1)
           | Returns target0 \<Rightarrow>
               (case SetEmptyBitString h1 target0 ?R of
                  Throws e \<Rightarrow> (Throws e, s0\<lparr>min_s := mn, max_s := mx\<rparr>, h1)
                | Undefined \<Rightarrow> (Undefined, s0\<lparr>min_s := mn, max_s := mx\<rparr>, h1)
                | Returns (target, h2) \<Rightarrow>
                    (Returns (), s0\<lparr>min_s := mn, max_s := mx, value := target, is_set := True\<rparr>, h2)))"
    unfolding first_row_def len_bitstring_bytes
    using R by (simp add: bd GetRange_small [OF assms(1,2)] nc Let_def)
  then show ?thesis
    using rd
    by (auto simp: make_string_t_def SetEmptyBitString_def holds_def read_cell_def is_live_def)
qed


lemma SetBit_holds:
  assumes "holds s h bits" "n < length bits"
  shows "\<exists>v' h'. SetBit h (value s) n b = Returns (v', h')
           \<and> holds (s\<lparr>value := v'\<rparr>) h' (bits[n := b])"
proof (cases rule: string_t.exhaust [of "value s"])
  case (Inlined len old)
  with assms show ?thesis
    by (auto simp: holds_def SetBit_def)
next
  case (Pointer len p)
  with assms show ?thesis
    by (auto simp: holds_def SetBit_def read_cell_def is_live_def split: option.splits)
qed

lemma small_to_idx_t: "0 \<le> d \<Longrightarrow> d \<le> 1000000000 \<Longrightarrow>
    (if t = HUGEINT then Hugeint_TryCast d else Some (to_idx_t d)) = Some (nat d)"
  by (simp add: Hugeint_TryCast_def to_idx_t_def)

lemma Execute_ok:
  assumes "holds s h bits" "length bits = nat (mx - mn + 1)" "mn \<le> x" "x \<le> mx"
    "mx - mn + 1 \<le> 1000000000"
  shows "\<exists>v' h'. BitStringAggOperation_Execute t (s, h) x mn = (Returns (), s\<lparr>value := v'\<rparr>, h')
           \<and> holds (s\<lparr>value := v'\<rparr>) h' (bits[nat (x - mn) := True])"
proof -
  have a: "arith t (x - mn) = Returns (x - mn)"
    using assms by (intro arith_small) simp_all
  have c: "(if t = HUGEINT then Hugeint_TryCast (x - mn) else Some (to_idx_t (x - mn)))
             = Some (nat (x - mn))"
    using assms by (intro small_to_idx_t) simp_all
  have "nat (x - mn) < length bits" using assms by simp
  from SetBit_holds [OF assms(1) this, of True]
  obtain v' h' where sb: "SetBit h (value s) (nat (x - mn)) True = Returns (v', h')"
    and h: "holds (s\<lparr>value := v'\<rparr>) h' (bits[nat (x - mn) := True])"
    by blast
  have "BitStringAggOperation_Execute t (s, h) x mn = (Returns (), s\<lparr>value := v'\<rparr>, h')"
    unfolding BitStringAggOperation_Execute_def by (simp add: a c sb del: arith.simps)
  with h show ?thesis by blast
qed

lemma Operation_set_ok:
  assumes "is_set s" "min_s s = mn" "max_s s = mx"
    and "holds s h bits" "length bits = nat (mx - mn + 1)" "mn \<le> x" "x \<le> mx"
    "mx - mn + 1 \<le> 1000000000"
    and bd: "GetValueUnsafe (min_bd bd) = mn"
  shows "\<exists>s' h'. BitStringAggOperation_Operation inl t bd (s, h) x = (Returns (), s', h')
           \<and> is_set s' \<and> min_s s' = mn \<and> max_s s' = mx
           \<and> holds s' h' (bits[nat (x - mn) := True])"
proof -
  from Execute_ok [OF assms(4-8), of t]
  obtain v' h' where ex: "BitStringAggOperation_Execute t (s, h) x mn = (Returns (), s\<lparr>value := v'\<rparr>, h')"
    and h: "holds (s\<lparr>value := v'\<rparr>) h' (bits[nat (x - mn) := True])"
    by blast
  have "BitStringAggOperation_Operation inl t bd (s, h) x = (Returns (), s\<lparr>value := v'\<rparr>, h')"
    unfolding BitStringAggOperation_Operation_def using assms(1-3,6,7) by (simp add: bd ex)
  with h assms(1-3) show ?thesis by auto
qed

lemma Operation_unset:
  assumes "\<not> is_set s0" "first_row inl t bd (s0, h) = (Returns (), s, h')" "is_set s"
  shows "BitStringAggOperation_Operation inl t bd (s0, h) x
           = BitStringAggOperation_Operation inl t bd (s, h') x"
  using assms unfolding BitStringAggOperation_Operation_def by simp


lemma update_rows_ok:
  assumes "is_set s" "min_s s = mn" "max_s s = mx"
    and "holds s h bits" "length bits = nat (mx - mn + 1)"
    and "\<forall>i < length bits. bits ! i \<longleftrightarrow> mn + int i \<in> seen"
    and "\<forall>x \<in> set xs. mn \<le> x \<and> x \<le> mx"
    and "mx - mn + 1 \<le> 1000000000"
    and bd: "GetValueUnsafe (min_bd bd) = mn"
  shows "\<exists>s' h' bits'. update_rows inl t bd (s, h) xs = (Returns (), s', h')
           \<and> is_set s' \<and> holds s' h' bits' \<and> length bits' = nat (mx - mn + 1)
           \<and> (\<forall>i < length bits'. bits' ! i \<longleftrightarrow> mn + int i \<in> seen \<union> set xs)"
  using assms(1-7)
proof (induction xs arbitrary: s h bits seen)
  case Nil
  then show ?case by auto
next
  case (Cons x xs)
  have x: "mn \<le> x" "x \<le> mx" using Cons.prems(7) by simp_all
  from Operation_set_ok [OF Cons.prems(1-5) x assms(8) bd, of inl t]
  obtain s1 h1 where op: "BitStringAggOperation_Operation inl t bd (s, h) x = (Returns (), s1, h1)"
    and s1: "is_set s1" "min_s s1 = mn" "max_s s1 = mx"
    and h1: "holds s1 h1 (bits[nat (x - mn) := True])"
    by blast
  let ?bits1 = "bits[nat (x - mn) := True]"
  have len1: "length ?bits1 = nat (mx - mn + 1)" using Cons.prems(5) by simp
  have inv1: "\<forall>i < length ?bits1. ?bits1 ! i \<longleftrightarrow> mn + int i \<in> insert x seen"
  proof (intro allI impI)
    fix i assume i: "i < length ?bits1"
    have "i = nat (x - mn) \<longleftrightarrow> mn + int i = x" using x by auto
    with i Cons.prems(6) show "?bits1 ! i \<longleftrightarrow> mn + int i \<in> insert x seen"
      by (auto simp: nth_list_update)
  qed
  have rest: "\<forall>y \<in> set xs. mn \<le> y \<and> y \<le> mx" using Cons.prems(7) by simp
  from Cons.IH [OF s1 h1 len1 inv1 rest]
  obtain s' h' bits' where "update_rows inl t bd (s1, h1) xs = (Returns (), s', h')"
    "is_set s'" "holds s' h' bits'" "length bits' = nat (mx - mn + 1)"
    "\<forall>i < length bits'. bits' ! i \<longleftrightarrow> mn + int i \<in> insert x seen \<union> set xs"
    by blast
  then show ?case by (auto simp: op)
qed

text \<open>
  Claim C1 (range-bitmap correctness), for a group with at least one row. For bind data
  \<open>(mn, mx)\<close> with \<open>mx - mn + 1 \<le> 10^9\<close> and a non-empty list \<open>X\<close> of inputs within
  \<open>[mn, mx]\<close>: after \<open>Initialize\<close> and one \<open>Operation\<close> per element of \<open>X\<close> no call has
  thrown, and \<open>Finalize\<close> gives a bitstring of exactly \<open>mx - mn + 1\<close> bits whose \<open>i\<close>-th
  bit is set if and only if \<open>mn + i\<close> occurs in \<open>X\<close>. This holds for each of the nine input
  types, every inline threshold, every earlier content of the state and every heap.
\<close>

theorem range_bitmap_correct:
  assumes "X \<noteq> []" "\<forall>x \<in> set X. mn \<le> x \<and> x \<le> mx" "mx - mn + 1 \<le> 1000000000"
    and "GetValueUnsafe (min_bd bd) = mn" "GetValueUnsafe (max_bd bd) = mx"
  shows "\<exists>s h' bits.
           update_rows inl t bd (BitStringAggOperation_Initialize s0, h) X = (Returns (), s, h')
           \<and> BitStringAggOperation_Finalize s h' = Returns (Some bits)
           \<and> length bits = nat (mx - mn + 1)
           \<and> (\<forall>i < length bits. bits ! i \<longleftrightarrow> mn + int i \<in> set X)"
proof -
  obtain x xs where X: "X = x # xs" using assms(1) by (cases X) auto
  have x: "mn \<le> x" "x \<le> mx" and rest: "\<forall>y \<in> set xs. mn \<le> y \<and> y \<le> mx"
    using assms(2) by (simp_all add: X)
  have le: "mn \<le> mx" using x by simp
  let ?i = "BitStringAggOperation_Initialize s0"
  let ?R = "nat (mx - mn + 1)"
  have unset: "\<not> is_set ?i" by (simp add: BitStringAggOperation_Initialize_def)
  from first_row_ok [OF le assms(3,4,5), of inl t ?i h]
  obtain s1 h1 where fr: "first_row inl t bd (?i, h) = (Returns (), s1, h1)"
    and s1: "is_set s1" "min_s s1 = mn" "max_s s1 = mx"
    and h1: "holds s1 h1 (replicate ?R False)"
    by blast
  have len0: "length (replicate ?R False) = ?R" by simp
  from Operation_set_ok [OF s1 h1 len0 x assms(3,4), of inl t]
  obtain s2 h2 where op: "BitStringAggOperation_Operation inl t bd (s1, h1) x = (Returns (), s2, h2)"
    and s2: "is_set s2" "min_s s2 = mn" "max_s s2 = mx"
    and h2: "holds s2 h2 ((replicate ?R False)[nat (x - mn) := True])"
    by blast
  let ?bits2 = "(replicate ?R False)[nat (x - mn) := True]"
  have len2: "length ?bits2 = ?R" by simp
  have inv2: "\<forall>i < length ?bits2. ?bits2 ! i \<longleftrightarrow> mn + int i \<in> {x}"
  proof (intro allI impI)
    fix i assume i: "i < length ?bits2"
    have "i = nat (x - mn) \<longleftrightarrow> mn + int i = x" using x by auto
    with i show "?bits2 ! i \<longleftrightarrow> mn + int i \<in> {x}"
      by (auto simp: nth_list_update)
  qed
  from update_rows_ok [OF s2 h2 len2 inv2 rest assms(3,4), of inl t]
  obtain s' h' bits' where ur: "update_rows inl t bd (s2, h2) xs = (Returns (), s', h')"
    and s': "is_set s'" "holds s' h' bits'" "length bits' = ?R"
    and inv: "\<forall>i < length bits'. bits' ! i \<longleftrightarrow> mn + int i \<in> {x} \<union> set xs"
    by blast
  have "update_rows inl t bd (?i, h) X = (Returns (), s', h')"
    by (simp add: X Operation_unset [OF unset fr s1(1)] op ur)
  moreover have "BitStringAggOperation_Finalize s' h' = Returns (Some bits')"
    using s' by (simp add: BitStringAggOperation_Finalize_def holds_def)
  ultimately show ?thesis using s'(3) inv by (auto simp: X)
qed

text \<open>The spec's scenario \<open>bitstring_agg(x, 10, 13)\<close> over the rows 10, 12, 13.\<close>

theorem range_bitmap_correct_witness:
  "[10, 12, 13 :: int] \<noteq> [] \<and> list_all (\<lambda>x. 10 \<le> x \<and> x \<le> 13) [10, 12, 13 :: int]
   \<and> (13 :: int) - 10 + 1 \<le> 1000000000
   \<and> (\<exists>s h' bits.
         update_rows 12 INTEGER \<lparr>min_bd = Value False 10, max_bd = Value False 13\<rparr>
           (BitStringAggOperation_Initialize
              \<lparr>is_set = True, value = Inlined 0 [], min_s = 0, max_s = 0\<rparr>,
            \<lparr>cells = [], released = []\<rparr>) [10, 12, 13] = (Returns (), s, h')
         \<and> BitStringAggOperation_Finalize s h' = Returns (Some bits)
         \<and> length bits = 4
         \<and> (\<forall>i < length bits. bits ! i \<longleftrightarrow> 10 + int i \<in> set [10, 12, 13]))"
  using range_bitmap_correct [of "[10, 12, 13]" 10 13
          "\<lparr>min_bd = Value False 10, max_bd = Value False 13\<rparr>" 12 INTEGER
          "\<lparr>is_set = True, value = Inlined 0 [], min_s = 0, max_s = 0\<rparr>"
          "\<lparr>cells = [], released = []\<rparr>"]
  by simp

text \<open>
  With no row at all the state stays unset and \<open>Finalize\<close> emits NULL, not a bitstring of
  \<open>mx - mn + 1\<close> bits: the claim as stated for every multiset fails at the empty one.
\<close>

theorem range_bitmap_empty_counterexample:
  "update_rows 12 INTEGER \<lparr>min_bd = Value False 10, max_bd = Value False 13\<rparr>
     (BitStringAggOperation_Initialize
        \<lparr>is_set = True, value = Inlined 0 [], min_s = 0, max_s = 0\<rparr>,
      \<lparr>cells = [], released = []\<rparr>) []
     = (Returns (), \<lparr>is_set = False, value = Inlined 0 [], min_s = 0, max_s = 0\<rparr>,
        \<lparr>cells = [], released = []\<rparr>)
   \<and> BitStringAggOperation_Finalize
        \<lparr>is_set = False, value = Inlined 0 [], min_s = 0, max_s = 0\<rparr>
        \<lparr>cells = [], released = []\<rparr> = Returns None"
  by (simp add: BitStringAggOperation_Initialize_def BitStringAggOperation_Finalize_def)

subsection \<open>Errors of \<open>Operation\<close>\<close>

lemma first_row_returns:
  assumes "GetRange t mn mx = Returns R" "R \<le> 1000000000"
    and bd: "GetValueUnsafe (min_bd bd) = mn" "GetValueUnsafe (max_bd bd) = mx"
  shows "first_row inl t bd (s0, h) =
           (let L = bitstring_bytes R in
              (Returns (),
               s0\<lparr>min_s := mn, max_s := mx,
                   value := (if L \<le> inl then Inlined L (replicate R False)
                             else Pointer L (length (cells h))),
                   is_set := True\<rparr>,
               h\<lparr>cells := cells h @ [Live L (if L \<le> inl then [] else replicate R False)]\<rparr>))"
proof -
  have R: "\<not> R > 1000000000" using assms by simp
  show ?thesis
    unfolding first_row_def len_bitstring_bytes
    using R
    by (simp add: bd assms(1) Let_def new_char_def make_string_t_def
          read_cell_def SetEmptyBitString_def is_live_def)
qed

lemma arith_throws: "arith t v = Throws e \<Longrightarrow> e = hugeint_overflow"
  by (cases t) (simp_all split: if_splits)

lemma GetRange_throws:
  "GetRange t mn mx = Throws e \<Longrightarrow> is_out_of_range (Throws e :: 'a outcome)"
  unfolding GetRange_def
  by (auto simp: hugeint_overflow_def dest!: arith_throws
        split: outcome.splits if_splits option.splits)

lemma GetRange_large:
  assumes "\<not> range_wraps t mn mx" "mn \<le> mx" "1000000000 < mx - mn + 1"
  shows "(\<exists>e. GetRange t mn mx = Throws e) \<or> (\<exists>r. GetRange t mn mx = Returns r \<and> 1000000000 < r)"
proof (cases "GetRange t mn mx")
  case (Returns r)
  have "1000000000 < r"
  proof (cases t)
    case UINTEGER
    then have "mx - mn + 1 < 2 ^ 32" using assms(1) by (simp add: range_wraps_def)
    then have "((mx - mn) mod 2 ^ 32 + 1) mod 2 ^ 32 = mx - mn + 1"
      using assms(2) by (simp add: mod_pos_pos_trivial)
    with Returns UINTEGER assms(3) show ?thesis
      by (auto simp: GetRange_def to_idx_t_def)
  next
    case UBIGINT
    then have "mx - mn + 1 < 2 ^ 64" using assms(1) by (simp add: range_wraps_def)
    then have "((mx - mn) mod 2 ^ 64 + 1) mod 2 ^ 64 = mx - mn + 1"
      using assms(2) by (simp add: mod_pos_pos_trivial)
    with Returns UBIGINT assms(3) show ?thesis
      by (auto simp: GetRange_def to_idx_t_def)
  next
    case HUGEINT
    with Returns assms(2,3) show ?thesis
      by (auto simp: GetRange_def Hugeint_TryCast_def split: if_splits)
  next
    case TINYINT
    with Returns assms(2,3) show ?thesis
      by (auto simp: GetRange_def to_idx_t_def fits_def split: if_splits)
  next
    case SMALLINT
    with Returns assms(2,3) show ?thesis
      by (auto simp: GetRange_def to_idx_t_def fits_def split: if_splits)
  next
    case INTEGER
    with Returns assms(2,3) show ?thesis
      by (auto simp: GetRange_def to_idx_t_def fits_def split: if_splits)
  next
    case BIGINT
    with Returns assms(2,3) show ?thesis
      by (auto simp: GetRange_def to_idx_t_def fits_def split: if_splits)
  next
    case UTINYINT
    with Returns assms(2,3) show ?thesis
      by (auto simp: GetRange_def to_idx_t_def fits_def split: if_splits)
  next
    case USMALLINT
    with Returns assms(2,3) show ?thesis
      by (auto simp: GetRange_def to_idx_t_def fits_def split: if_splits)
  qed
  with Returns show ?thesis by simp
next
  case (Throws e)
  then show ?thesis by simp
next
  case Undefined
  with assms(1) show ?thesis by (simp add: range_wraps_def)
qed


lemma first_row_throws:
  assumes "GetRange t (GetValueUnsafe (min_bd bd)) (GetValueUnsafe (max_bd bd)) = Throws e"
  shows "fst (first_row inl t bd (s0, h)) = Throws e"
  using assms by (simp add: first_row_def)

lemma first_row_too_large:
  assumes "GetRange t (GetValueUnsafe (min_bd bd)) (GetValueUnsafe (max_bd bd)) = Returns r"
    "1000000000 < r"
  shows "is_out_of_range (fst (first_row inl t bd (s0, h)))"
  using assms by (simp add: first_row_def)

lemma Operation_first_row_fails:
  assumes "\<not> is_set s0" "fst (first_row inl t bd (s0, h)) \<noteq> Returns ()"
  shows "BitStringAggOperation_Operation inl t bd (s0, h) x = first_row inl t bd (s0, h)"
proof -
  obtain st s1 h1 where fr: "first_row inl t bd (s0, h) = (st, s1, h1)"
    by (metis prod_cases3)
  with assms(2) have "st \<noteq> Returns ()" by simp
  then show ?thesis
    using assms(1) unfolding BitStringAggOperation_Operation_def fr
    by (cases st) auto
qed

text \<open>
  On a fresh state, and unless the range computation wraps or overflows, \<open>Operation\<close> throws
  an out-of-range error exactly when \<open>max - min + 1\<close> exceeds \<open>10^9\<close> or the input is outside
  \<open>[min, max]\<close>, and returns normally otherwise. (For 128-bit inputs a range or an offset
  that does not fit the index type is one of these two cases.)
\<close>

lemma Operation_error_iff:
  assumes "\<not> is_set s0" "\<not> range_wraps t mn mx"
    and bd: "GetValueUnsafe (min_bd bd) = mn" "GetValueUnsafe (max_bd bd) = mx"
  shows "(is_out_of_range (fst (BitStringAggOperation_Operation inl t bd (s0, h) x))
            \<longleftrightarrow> 1000000000 < mx - mn + 1 \<or> x < mn \<or> mx < x)
       \<and> (\<not> is_out_of_range (fst (BitStringAggOperation_Operation inl t bd (s0, h) x))
            \<longrightarrow> fst (BitStringAggOperation_Operation inl t bd (s0, h) x) = Returns ())"
proof (cases "mn \<le> x \<and> x \<le> mx")
  case inside: True
  then have le: "mn \<le> mx" by simp
  show ?thesis
  proof (cases "mx - mn + 1 \<le> 1000000000")
    case True
    from first_row_ok [OF le True bd, of inl t s0 h]
    obtain s1 h1 where fr: "first_row inl t bd (s0, h) = (Returns (), s1, h1)"
      and s1: "is_set s1" "min_s s1 = mn" "max_s s1 = mx"
      and h1: "holds s1 h1 (replicate (nat (mx - mn + 1)) False)"
      by blast
    have len0: "length (replicate (nat (mx - mn + 1)) False) = nat (mx - mn + 1)" by simp
    from Operation_set_ok [OF s1 h1 len0 _ _ True bd(1), of x inl t] inside
    obtain s2 h2 where "BitStringAggOperation_Operation inl t bd (s1, h1) x = (Returns (), s2, h2)"
      by blast
    then have "fst (BitStringAggOperation_Operation inl t bd (s0, h) x) = Returns ()"
      by (simp add: Operation_unset [OF assms(1) fr s1(1)])
    then show ?thesis using True inside by simp
  next
    case False
    then have big: "1000000000 < mx - mn + 1" by simp
    have "is_out_of_range (fst (first_row inl t bd (s0, h)))"
      using GetRange_large [OF assms(2) le big]
    proof (elim disjE exE conjE)
      fix e assume e: "GetRange t mn mx = Throws e"
      then show ?thesis
        using first_row_throws [of t bd e inl s0 h] GetRange_throws [OF e]
        by (simp add: bd)
    next
      fix r assume "GetRange t mn mx = Returns r" "1000000000 < r"
      then show ?thesis
        using first_row_too_large [of t bd r inl s0 h] by (simp add: bd)
    qed
    moreover from this have "fst (first_row inl t bd (s0, h)) \<noteq> Returns ()" by auto
    ultimately have "is_out_of_range (fst (BitStringAggOperation_Operation inl t bd (s0, h) x))"
      by (simp add: Operation_first_row_fails [OF assms(1)])
    then show ?thesis using big by simp
  qed
next
  case outside: False
  have "is_out_of_range (fst (BitStringAggOperation_Operation inl t bd (s0, h) x))"
  proof (cases "GetRange t mn mx")
    case Undefined
    with assms(2) show ?thesis by (simp add: range_wraps_def)
  next
    case (Throws e)
    then have f: "fst (first_row inl t bd (s0, h)) = Throws e"
      using first_row_throws [of t bd e inl s0 h] by (simp add: bd)
    then have "fst (first_row inl t bd (s0, h)) \<noteq> Returns ()" by simp
    then show ?thesis
      using f GetRange_throws [OF Throws] by (simp add: Operation_first_row_fails [OF assms(1)])
  next
    case (Returns r)
    show ?thesis
    proof (cases "1000000000 < r")
      case True
      then have o: "is_out_of_range (fst (first_row inl t bd (s0, h)))"
        using first_row_too_large [of t bd r inl s0 h] Returns by (simp add: bd)
      then have "fst (first_row inl t bd (s0, h)) \<noteq> Returns ()" by auto
      then show ?thesis
        using o by (simp add: Operation_first_row_fails [OF assms(1)])
    next
      case False
      then have r: "r \<le> 1000000000" by simp
      show ?thesis
        unfolding BitStringAggOperation_Operation_def
        using assms(1) outside
        by (auto simp: first_row_returns [OF Returns r bd] Let_def)
    qed
  qed
  then show ?thesis using outside by auto
qed

text \<open>
  Claim C6 says that \<open>Operation\<close> raises an out-of-range error whenever \<open>max - min + 1\<close>
  exceeds \<open>10^9\<close>. For an unsigned 32-bit column with the bounds 0 and 4294967295 the range
  is \<open>2^32\<close>, but \<open>GetRange\<close> computes it in 32 bits and returns 0: the first row passes the
  range check, gets a bitmap of no bits in a one-byte buffer, passes the bounds check, and
  \<open>Execute\<close> sets bit 5 of that empty bitmap. No exception is thrown.
\<close>

theorem range_wraps_to_zero_unsigned_32:
  "GetRange UINTEGER 0 4294967295 = Returns 0
   \<and> first_row 12 UINTEGER \<lparr>min_bd = Value False 0, max_bd = Value False 4294967295\<rparr>
        (BitStringAggOperation_Initialize
           \<lparr>is_set = True, value = Inlined 0 [], min_s = 0, max_s = 0\<rparr>,
         \<lparr>cells = [], released = []\<rparr>)
       = (Returns (),
          \<lparr>is_set = True, value = Inlined 1 [], min_s = 0, max_s = 4294967295\<rparr>,
          \<lparr>cells = [Live 1 []], released = []\<rparr>)
   \<and> BitStringAggOperation_Operation 12 UINTEGER
        \<lparr>min_bd = Value False 0, max_bd = Value False 4294967295\<rparr>
        (BitStringAggOperation_Initialize
           \<lparr>is_set = True, value = Inlined 0 [], min_s = 0, max_s = 0\<rparr>,
         \<lparr>cells = [], released = []\<rparr>) 5
       = (Undefined,
          \<lparr>is_set = True, value = Inlined 1 [], min_s = 0, max_s = 4294967295\<rparr>,
          \<lparr>cells = [Live 1 []], released = []\<rparr>)"
proof -
  have g: "GetRange UINTEGER 0 4294967295 = Returns 0"
    by (simp add: GetRange_def to_idx_t_def)
  have f: "first_row 12 UINTEGER \<lparr>min_bd = Value False 0, max_bd = Value False 4294967295\<rparr>
        (BitStringAggOperation_Initialize
           \<lparr>is_set = True, value = Inlined 0 [], min_s = 0, max_s = 0\<rparr>,
         \<lparr>cells = [], released = []\<rparr>)
       = (Returns (),
          \<lparr>is_set = True, value = Inlined 1 [], min_s = 0, max_s = 4294967295\<rparr>,
          \<lparr>cells = [Live 1 []], released = []\<rparr>)"
    by (simp add: first_row_def g BitStringAggOperation_Initialize_def new_char_def
          make_string_t_def read_cell_def SetEmptyBitString_def bitstring_bytes_def)
  have u: "\<not> is_set (BitStringAggOperation_Initialize
           \<lparr>is_set = True, value = Inlined 0 [], min_s = 0, max_s = 0\<rparr>)"
    by (simp add: BitStringAggOperation_Initialize_def)
  have i: "to_idx_t 5 = 5" by (simp add: to_idx_t_def)
  have e: "BitStringAggOperation_Execute UINTEGER
     (\<lparr>is_set = True, value = Inlined 1 [], min_s = 0, max_s = 4294967295\<rparr>,
          \<lparr>cells = [Live 1 []], released = []\<rparr>) 5 0 = (Undefined,
          \<lparr>is_set = True, value = Inlined 1 [], min_s = 0, max_s = 4294967295\<rparr>,
          \<lparr>cells = [Live 1 []], released = []\<rparr>)"
    unfolding BitStringAggOperation_Execute_def by (simp add: i SetBit_def)
  have o: "BitStringAggOperation_Operation 12 UINTEGER
        \<lparr>min_bd = Value False 0, max_bd = Value False 4294967295\<rparr>
        (\<lparr>is_set = True, value = Inlined 1 [], min_s = 0, max_s = 4294967295\<rparr>,
          \<lparr>cells = [Live 1 []], released = []\<rparr>) 5
       = (Undefined,
          \<lparr>is_set = True, value = Inlined 1 [], min_s = 0, max_s = 4294967295\<rparr>,
          \<lparr>cells = [Live 1 []], released = []\<rparr>)"
    unfolding BitStringAggOperation_Operation_def using e by simp
  show ?thesis
    using g f o Operation_unset [OF u f] by simp
qed

subsection \<open>An error at the first row\<close>

text \<open>
  When the first row of a fresh state is outside \<open>[mn, mx]\<close> and the range is acceptable,
  \<open>Operation\<close> throws with the state already set, min and max copied and a new buffer
  allocated. \<open>Finalize\<close> on that state gives the all-zero bitmap. \<open>Destroy\<close> releases the new
  buffer exactly when the bitmap is too long to be inlined.
\<close>

lemma first_row_error_leaves_state:
  assumes "\<not> is_set s0" "mn \<le> mx" "mx - mn + 1 \<le> 1000000000"
    and bd: "GetValueUnsafe (min_bd bd) = mn" "GetValueUnsafe (max_bd bd) = mx"
    and x: "x < mn \<or> mx < x"
  shows "\<exists>s h'. BitStringAggOperation_Operation inl t bd (s0, h) x
             = (Throws (OutOfRangeException
                  ''Value %s is outside of provided min and max range (%s <-> %s)'' [x, mn, mx]),
                s, h')
          \<and> is_set s \<and> min_s s = mn \<and> max_s s = mx
          \<and> length (cells h') = Suc (length (cells h))
          \<and> is_live h' (length (cells h))
          \<and> BitStringAggOperation_Finalize s h' = Returns (Some (replicate (nat (mx - mn + 1)) False))
          \<and> BitStringAggOperation_Destroy s h'
              = Returns (if bitstring_bytes (nat (mx - mn + 1)) \<le> inl then h'
                         else h'\<lparr>cells := (cells h')[length (cells h) := Released],
                                 released := released h @ [length (cells h)]\<rparr>)"
proof -
  let ?R = "nat (mx - mn + 1)"
  let ?L = "bitstring_bytes ?R"
  let ?s = "s0\<lparr>min_s := mn, max_s := mx,
                   value := (if ?L \<le> inl then Inlined ?L (replicate ?R False)
                             else Pointer ?L (length (cells h))),
                   is_set := True\<rparr>"
  let ?h = "h\<lparr>cells := cells h @ [Live ?L (if ?L \<le> inl then [] else replicate ?R False)]\<rparr>"
  have fr: "first_row inl t bd (s0, h) = (Returns (), ?s, ?h)"
    using first_row_result [OF assms(2-5), of inl t s0 h] by (simp add: Let_def)
  have out: "\<not> (x \<ge> mn \<and> x \<le> mx)" using x by auto
  have op: "BitStringAggOperation_Operation inl t bd (s0, h) x
             = (Throws (OutOfRangeException
                  ''Value %s is outside of provided min and max range (%s <-> %s)'' [x, mn, mx]),
                ?s, ?h)"
    unfolding BitStringAggOperation_Operation_def using assms(1) out by (auto simp: fr)
  have fin: "BitStringAggOperation_Finalize ?s ?h = Returns (Some (replicate ?R False))"
    by (simp add: BitStringAggOperation_Finalize_def read_cell_def)
  have des: "BitStringAggOperation_Destroy ?s ?h
              = Returns (if ?L \<le> inl then ?h
                         else ?h\<lparr>cells := (cells ?h)[length (cells h) := Released],
                                 released := released h @ [length (cells h)]\<rparr>)"
    by (simp add: BitStringAggOperation_Destroy_def delete_array_def is_live_def)
  have live: "is_live ?h (length (cells h))" by (simp add: is_live_def)
  have len: "length (cells ?h) = Suc (length (cells h))" by simp
  have st: "is_set ?s" "min_s ?s = mn" "max_s ?s = mx" by simp_all
  show ?thesis
    using op st len live fin des by blast
qed

text \<open>
  Claim C9 at the spec's own scenario, \<open>bitstring_agg(x, 10, 13)\<close> with first row 14 and
  strings of up to 12 bytes inlined. \<open>Operation\<close> throws after it has set \<open>is_set\<close>, copied min
  and max and allocated two bytes; the string made from that buffer is inlined, so the state
  does not point to the buffer, \<open>Destroy\<close> releases nothing and the buffer stays live.
\<close>

theorem first_row_error_leaves_short_buffer_live:
  "BitStringAggOperation_Operation 12 INTEGER \<lparr>min_bd = Value False 10, max_bd = Value False 13\<rparr>
        (BitStringAggOperation_Initialize
           \<lparr>is_set = True, value = Inlined 0 [], min_s = 0, max_s = 0\<rparr>,
         \<lparr>cells = [], released = []\<rparr>) 14
     = (Throws (OutOfRangeException
                  ''Value %s is outside of provided min and max range (%s <-> %s)'' [14, 10, 13]),
        \<lparr>is_set = True, value = Inlined 2 [False, False, False, False], min_s = 10, max_s = 13\<rparr>,
        \<lparr>cells = [Live 2 []], released = []\<rparr>)
   \<and> BitStringAggOperation_Destroy
        \<lparr>is_set = True, value = Inlined 2 [False, False, False, False], min_s = 10, max_s = 13\<rparr>
        \<lparr>cells = [Live 2 []], released = []\<rparr>
     = Returns \<lparr>cells = [Live 2 []], released = []\<rparr>
   \<and> is_live \<lparr>cells = [Live 2 []], released = []\<rparr> 0"
proof -
  have r4: "replicate 4 False = [False, False, False, False]"
    by (simp add: eval_nat_numeral)
  have g: "GetRange INTEGER 10 13 = Returns 4"
    by (simp add: GetRange_def to_idx_t_def fits_def)
  have f: "first_row 12 INTEGER \<lparr>min_bd = Value False 10, max_bd = Value False 13\<rparr>
        (BitStringAggOperation_Initialize
           \<lparr>is_set = True, value = Inlined 0 [], min_s = 0, max_s = 0\<rparr>,
         \<lparr>cells = [], released = []\<rparr>)
       = (Returns (),
          \<lparr>is_set = True, value = Inlined 2 [False, False, False, False], min_s = 10, max_s = 13\<rparr>,
          \<lparr>cells = [Live 2 []], released = []\<rparr>)"
    by (simp add: first_row_def g BitStringAggOperation_Initialize_def new_char_def
          make_string_t_def read_cell_def SetEmptyBitString_def bitstring_bytes_def r4)
  have u: "\<not> is_set (BitStringAggOperation_Initialize
           \<lparr>is_set = True, value = Inlined 0 [], min_s = 0, max_s = 0\<rparr>)"
    by (simp add: BitStringAggOperation_Initialize_def)
  have o: "BitStringAggOperation_Operation 12 INTEGER
        \<lparr>min_bd = Value False 10, max_bd = Value False 13\<rparr>
        (\<lparr>is_set = True, value = Inlined 2 [False, False, False, False], min_s = 10, max_s = 13\<rparr>,
         \<lparr>cells = [Live 2 []], released = []\<rparr>) 14
     = (Throws (OutOfRangeException
                  ''Value %s is outside of provided min and max range (%s <-> %s)'' [14, 10, 13]),
        \<lparr>is_set = True, value = Inlined 2 [False, False, False, False], min_s = 10, max_s = 13\<rparr>,
        \<lparr>cells = [Live 2 []], released = []\<rparr>)"
    unfolding BitStringAggOperation_Operation_def by simp
  have d: "BitStringAggOperation_Destroy
        \<lparr>is_set = True, value = Inlined 2 [False, False, False, False], min_s = 10, max_s = 13\<rparr>
        \<lparr>cells = [Live 2 []], released = []\<rparr>
     = Returns \<lparr>cells = [Live 2 []], released = []\<rparr>"
    by (simp add: BitStringAggOperation_Destroy_def)
  have l: "is_live \<lparr>cells = [Live 2 []], released = []\<rparr> 0"
    by (simp add: is_live_def)
  show ?thesis
    using o d l Operation_unset [OF u f] by simp
qed

section \<open>Buffer ownership in \<open>Combine\<close> and \<open>Destroy\<close>\<close>

lemma copy_to_new_buffer_fresh:
  assumes "is_live h p" "inl < len"
  shows "\<exists>bits. read_cell h p = Some bits \<and>
           copy_to_new_buffer inl h (Pointer len p)
             = Returns (Pointer len (length (cells h)),
                        h\<lparr>cells := cells h @ [Live len bits]\<rparr>)"
proof -
  from assms(1) obtain n bits where c: "p < length (cells h)" "cells h ! p = Live n bits"
    unfolding is_live_def by (cases rule: cell.exhaust [of "cells h ! p"]) auto
  then have "read_cell h p = Some bits" by (simp add: read_cell_def)
  moreover have "copy_to_new_buffer inl h (Pointer len p)
             = Returns (Pointer len (length (cells h)), h\<lparr>cells := cells h @ [Live len bits]\<rparr>)"
    using c assms(2)
    by (simp add: copy_to_new_buffer_def new_char_def read_cell_def nth_append make_string_t_def)
  ultimately show ?thesis by blast
qed

lemma two_deletes:
  assumes "is_live h p"
  shows "\<exists>h1 h2. delete_array p (h\<lparr>cells := cells h @ [c]\<rparr>) = Returns h1
          \<and> (c \<noteq> Released \<longrightarrow> delete_array (length (cells h)) h1 = Returns h2
          \<and> released h2 = released h @ [p, length (cells h)]
          \<and> \<not> is_live h2 p \<and> \<not> is_live h2 (length (cells h)))"
  using assms
  by (auto simp: delete_array_def is_live_def nth_append nth_list_update)

lemma combine_copy:
  fixes source target :: "string_t BitState" and asource atarget :: BitAggState
  assumes "inl < len" "is_live h p"
  shows "\<exists>bits. read_cell h p = Some bits
      \<and> (is_set source \<and> value source = Pointer len p \<and> \<not> is_set target \<longrightarrow>
           BitStringBitwiseOperation_Combine inl OP source (target, h)
             = (Returns (), target\<lparr>value := Pointer len (length (cells h)), is_set := True\<rparr>,
                h\<lparr>cells := cells h @ [Live len bits]\<rparr>))
      \<and> (is_set asource \<and> value asource = Pointer len p \<and> \<not> is_set atarget \<longrightarrow>
           BitStringAggOperation_Combine inl asource (atarget, h)
             = (Returns (), atarget\<lparr>value := Pointer len (length (cells h)), is_set := True\<rparr>,
                h\<lparr>cells := cells h @ [Live len bits]\<rparr>))"
proof -
  from copy_to_new_buffer_fresh [OF assms(2,1)]
  obtain bits where rd: "read_cell h p = Some bits"
    and cp: "copy_to_new_buffer inl h (Pointer len p)
             = Returns (Pointer len (length (cells h)), h\<lparr>cells := cells h @ [Live len bits]\<rparr>)"
    by blast
  show ?thesis
    using rd
    by (auto simp: BitStringBitwiseOperation_Combine_def BitStringBitwiseOperation_Assign_def
          BitStringAggOperation_Combine_def BitStringAggOperation_Assign_def cp)
qed

text \<open>
  Claim C10 (Combine duplicates the buffer). For the bitstring bitwise aggregates and for
  the range-bitmap aggregate alike: \<open>Combine\<close> of a set source whose value is a live,
  non-inlined buffer at \<open>p\<close> into an unset target allocates a new buffer, copies the source's
  bits into it and makes the target point to it. The new address differs from \<open>p\<close> and was
  not live before; the source's buffer keeps its contents (the source itself is passed
  read-only). \<open>Destroy\<close> of the source and then of the target both return and release the
  two addresses \<open>p\<close> and the new one, each once.
\<close>

theorem combine_duplicates_buffer:
  fixes source target :: "string_t BitState" and asource atarget :: BitAggState
  assumes "inl < len" "is_live h p"
    and "is_set source" "value source = Pointer len p" "\<not> is_set target"
    and "is_set asource" "value asource = Pointer len p" "\<not> is_set atarget"
  shows "\<exists>bits h1 h2.
           read_cell h p = Some bits
         \<and> BitStringBitwiseOperation_Combine inl OP source (target, h)
             = (Returns (), target\<lparr>value := Pointer len (length (cells h)), is_set := True\<rparr>,
                h\<lparr>cells := cells h @ [Live len bits]\<rparr>)
         \<and> BitStringAggOperation_Combine inl asource (atarget, h)
             = (Returns (), atarget\<lparr>value := Pointer len (length (cells h)), is_set := True\<rparr>,
                h\<lparr>cells := cells h @ [Live len bits]\<rparr>)
         \<and> length (cells h) \<noteq> p \<and> \<not> is_live h (length (cells h))
         \<and> read_cell (h\<lparr>cells := cells h @ [Live len bits]\<rparr>) p = Some bits
         \<and> read_cell (h\<lparr>cells := cells h @ [Live len bits]\<rparr>) (length (cells h)) = Some bits
         \<and> BitStringBitwiseOperation_Destroy source (h\<lparr>cells := cells h @ [Live len bits]\<rparr>)
             = Returns h1
         \<and> BitStringBitwiseOperation_Destroy
               (target\<lparr>value := Pointer len (length (cells h)), is_set := True\<rparr>) h1 = Returns h2
         \<and> BitStringAggOperation_Destroy asource (h\<lparr>cells := cells h @ [Live len bits]\<rparr>)
             = Returns h1
         \<and> BitStringAggOperation_Destroy
               (atarget\<lparr>value := Pointer len (length (cells h)), is_set := True\<rparr>) h1 = Returns h2
         \<and> released h2 = released h @ [p, length (cells h)]
         \<and> \<not> is_live h2 p \<and> \<not> is_live h2 (length (cells h))"
proof -
  from combine_copy [OF assms(1,2), of source target OP asource atarget]
  obtain bits where rd: "read_cell h p = Some bits"
    and c1: "BitStringBitwiseOperation_Combine inl OP source (target, h)
             = (Returns (), target\<lparr>value := Pointer len (length (cells h)), is_set := True\<rparr>,
                h\<lparr>cells := cells h @ [Live len bits]\<rparr>)"
    and c2: "BitStringAggOperation_Combine inl asource (atarget, h)
             = (Returns (), atarget\<lparr>value := Pointer len (length (cells h)), is_set := True\<rparr>,
                h\<lparr>cells := cells h @ [Live len bits]\<rparr>)"
    using assms(3-8) by blast
  let ?h' = "h\<lparr>cells := cells h @ [Live len bits]\<rparr>"
  let ?p' = "length (cells h)"
  from two_deletes [OF assms(2), of "Live len bits"]
  obtain h1 h2 where d: "delete_array p ?h' = Returns h1" "delete_array ?p' h1 = Returns h2"
     "released h2 = released h @ [p, ?p']" "\<not> is_live h2 p" "\<not> is_live h2 ?p'"
    by auto
  have lt: "p < ?p'" using assms(2) by (simp add: is_live_def)
  have r1: "read_cell ?h' ?p' = Some bits" by (simp add: read_cell_def)
  have r2: "read_cell ?h' p = Some bits" using rd lt by (simp add: read_cell_def nth_append)
  have nl: "\<not> is_live h ?p'" by (simp add: is_live_def)
  have d1: "BitStringBitwiseOperation_Destroy source ?h' = Returns h1"
    using assms(3,4) d(1) by (simp add: BitStringBitwiseOperation_Destroy_def)
  have d2: "BitStringBitwiseOperation_Destroy
               (target\<lparr>value := Pointer len ?p', is_set := True\<rparr>) h1 = Returns h2"
    using d(2) by (simp add: BitStringBitwiseOperation_Destroy_def)
  have d3: "BitStringAggOperation_Destroy asource ?h' = Returns h1"
    using assms(6,7) d(1) by (simp add: BitStringAggOperation_Destroy_def)
  have d4: "BitStringAggOperation_Destroy
               (atarget\<lparr>value := Pointer len ?p', is_set := True\<rparr>) h1 = Returns h2"
    using d(2) by (simp add: BitStringAggOperation_Destroy_def)
  have ne: "?p' \<noteq> p" using lt by simp
  show ?thesis
    using rd c1 c2 ne nl r2 r1 d1 d2 d3 d4 d(3,4,5) by blast
qed

theorem combine_duplicates_buffer_witness:
  "(12 :: nat) < 20 \<and> is_live \<lparr>cells = [Live 20 [True, False, True]], released = []\<rparr> 0
   \<and> BitStringBitwiseOperation_Combine 12 BitOrOperation
        \<lparr>is_set = True, value = Pointer 20 0\<rparr>
        (\<lparr>is_set = False, value = Inlined 0 []\<rparr>,
         \<lparr>cells = [Live 20 [True, False, True]], released = []\<rparr>)
      = (Returns (), \<lparr>is_set = True, value = Pointer 20 1\<rparr>,
         \<lparr>cells = [Live 20 [True, False, True], Live 20 [True, False, True]], released = []\<rparr>)
   \<and> BitStringAggOperation_Combine 12
        \<lparr>is_set = True, value = Pointer 20 0, min_s = 0, max_s = 2\<rparr>
        (\<lparr>is_set = False, value = Inlined 0 [], min_s = 7, max_s = 9\<rparr>,
         \<lparr>cells = [Live 20 [True, False, True]], released = []\<rparr>)
      = (Returns (), \<lparr>is_set = True, value = Pointer 20 1, min_s = 7, max_s = 9\<rparr>,
         \<lparr>cells = [Live 20 [True, False, True], Live 20 [True, False, True]], released = []\<rparr>)
   \<and> (\<exists>h1 h2.
         BitStringAggOperation_Destroy \<lparr>is_set = True, value = Pointer 20 0, min_s = 0, max_s = 2\<rparr>
           \<lparr>cells = [Live 20 [True, False, True], Live 20 [True, False, True]], released = []\<rparr>
           = Returns h1
       \<and> BitStringAggOperation_Destroy \<lparr>is_set = True, value = Pointer 20 1, min_s = 7, max_s = 9\<rparr> h1
           = Returns h2
       \<and> released h2 = [0, 1])"
  using combine_duplicates_buffer [of 12 20 "\<lparr>cells = [Live 20 [True, False, True]], released = []\<rparr>" 0
      "\<lparr>is_set = True, value = Pointer 20 0\<rparr>" "\<lparr>is_set = False, value = Inlined 0 []\<rparr>"
      "\<lparr>is_set = True, value = Pointer 20 0, min_s = 0, max_s = 2\<rparr>"
      "\<lparr>is_set = False, value = Inlined 0 [], min_s = 7, max_s = 9\<rparr>" BitOrOperation]
  by (simp add: is_live_def read_cell_def) blast

section \<open>Properties of the statistics propagation\<close>

lemma stats_error_message_parts:
  "prefix ''Could not retrieve required statistics'' stats_error_message"
  "sublist ''BITSTRING_AGG(col, min, max)'' stats_error_message"
  by (simp_all add: stats_error_message_def sublist_code)

text \<open>
  Claim C8 (binding failure of the one-argument form), as the code has it. When the
  child's statistics are missing, or the node statistics are missing or have no maximum
  cardinality, propagation throws a binder exception whose message starts with ``Could not
  retrieve required statistics'' and names the three-argument call
  \<open>BITSTRING_AGG(col, min, max)\<close>. When both are present and the cardinality is bounded,
  nothing is thrown: min and max are copied into the bind data if neither is NULL, and the
  bind data is left as it was if min or max is NULL.
\<close>

theorem propagate_stats_one_argument:
  "(child_stats = None \<or> node_stats = None
      \<or> (\<exists>ns. node_stats = Some ns \<and> \<not> has_max_cardinality ns) \<longrightarrow>
      (\<exists>msg. propagate_statistics 1 bind_data child_stats node_stats
                = Throws (BinderException msg)
           \<and> sublist ''Could not retrieve required statistics'' msg
           \<and> sublist ''BITSTRING_AGG(col, min, max)'' msg))
   \<and> (\<forall>st ns. child_stats = Some st \<and> node_stats = Some ns \<and> has_max_cardinality ns \<longrightarrow>
          propagate_statistics 1 bind_data child_stats node_stats
            = Returns (if IsNull (min_st st) \<or> IsNull (max_st st) then bind_data
                       else bind_data\<lparr>min_bd := min_st st, max_bd := max_st st\<rparr>))"
proof (intro conjI impI allI)
  assume "child_stats = None \<or> node_stats = None
            \<or> (\<exists>ns. node_stats = Some ns \<and> \<not> has_max_cardinality ns)"
  then have "propagate_statistics 1 bind_data child_stats node_stats
               = Throws (BinderException stats_error_message)"
    by (auto simp: propagate_statistics_def BitstringPropagateStats_def split: option.splits)
  moreover have "sublist ''Could not retrieve required statistics'' stats_error_message"
    using stats_error_message_parts(1) by (rule prefix_imp_sublist)
  ultimately show "\<exists>msg. propagate_statistics 1 bind_data child_stats node_stats
                = Throws (BinderException msg)
           \<and> sublist ''Could not retrieve required statistics'' msg
           \<and> sublist ''BITSTRING_AGG(col, min, max)'' msg"
    using stats_error_message_parts(2) by blast
next
  fix st ns
  assume "child_stats = Some st \<and> node_stats = Some ns \<and> has_max_cardinality ns"
  then show "propagate_statistics 1 bind_data child_stats node_stats
            = Returns (if IsNull (min_st st) \<or> IsNull (max_st st) then bind_data
                       else bind_data\<lparr>min_bd := min_st st, max_bd := max_st st\<rparr>)"
    by (simp add: propagate_statistics_def BitstringPropagateStats_def)
qed

text \<open>
  Without child statistics the call throws; with the statistics 3 and 40 they are copied;
  with a NULL minimum the bind data stays as it was.
\<close>

theorem propagate_stats_one_argument_witness:
  "(\<exists>msg. propagate_statistics 1 \<lparr>min_bd = Value True 0, max_bd = Value True 0\<rparr>
            None (Some \<lparr>has_max_cardinality = True\<rparr>) = Throws (BinderException msg)
         \<and> sublist ''Could not retrieve required statistics'' msg
         \<and> sublist ''BITSTRING_AGG(col, min, max)'' msg)
   \<and> propagate_statistics 1 \<lparr>min_bd = Value True 0, max_bd = Value True 0\<rparr>
        (Some \<lparr>min_st = Value False 3, max_st = Value False 40\<rparr>)
        (Some \<lparr>has_max_cardinality = True\<rparr>)
      = Returns \<lparr>min_bd = Value False 3, max_bd = Value False 40\<rparr>
   \<and> propagate_statistics 1 \<lparr>min_bd = Value True 0, max_bd = Value True 0\<rparr>
        (Some \<lparr>min_st = Value True 0, max_st = Value False 40\<rparr>)
        (Some \<lparr>has_max_cardinality = True\<rparr>)
      = Returns \<lparr>min_bd = Value True 0, max_bd = Value True 0\<rparr>"
  using propagate_stats_one_argument
          [of None "Some \<lparr>has_max_cardinality = True\<rparr>"
              "\<lparr>min_bd = Value True 0, max_bd = Value True 0\<rparr>"]
        propagate_stats_one_argument
          [of "Some \<lparr>min_st = Value False 3, max_st = Value False 40\<rparr>"
              "Some \<lparr>has_max_cardinality = True\<rparr>"
              "\<lparr>min_bd = Value True 0, max_bd = Value True 0\<rparr>"]
        propagate_stats_one_argument
          [of "Some \<lparr>min_st = Value True 0, max_st = Value False 40\<rparr>"
              "Some \<lparr>has_max_cardinality = True\<rparr>"
              "\<lparr>min_bd = Value True 0, max_bd = Value True 0\<rparr>"]
  by simp

text \<open>
  The claim as worded against the code: the child has statistics and the cardinality is
  bounded, but the minimum is NULL. No binder exception is thrown although the minimum is
  not available, and nothing is copied although the maximum 40 is: the bind data keeps
  its NULL bounds.
\<close>

theorem propagate_stats_null_minimum_counterexample:
  "IsNull (min_st \<lparr>min_st = Value True 0, max_st = Value False 40\<rparr>)
   \<and> BitstringPropagateStats \<lparr>min_bd = Value True 0, max_bd = Value True 0\<rparr>
        (Some \<lparr>min_st = Value True 0, max_st = Value False 40\<rparr>)
        (Some \<lparr>has_max_cardinality = True\<rparr>)
      = Returns \<lparr>min_bd = Value True 0, max_bd = Value True 0\<rparr>
   \<and> propagate_statistics 1 \<lparr>min_bd = Value True 0, max_bd = Value True 0\<rparr>
        (Some \<lparr>min_st = Value True 0, max_st = Value False 40\<rparr>)
        (Some \<lparr>has_max_cardinality = True\<rparr>)
      = Returns \<lparr>min_bd = Value True 0, max_bd = Value True 0\<rparr>"
  by (simp add: propagate_statistics_def BitstringPropagateStats_def)

section \<open>Properties of the HyperLogLog sketch\<close>

subsection \<open>Merge\<close>

lemma length_Update [simp]: "length (Update i z k) = length k"
  by (simp add: Update_def)

lemma nth_Update: "n < length k \<Longrightarrow> Update i z k ! n = (if n = i then max (k ! i) z else k ! n)"
  by (simp add: Update_def nth_list_update)

lemma length_Merge [simp]: "length (Merge M other k) = length k"
proof -
  have "length (fold (\<lambda>i k'. Update i (other ! i) k') xs k) = length k" for xs
    by (induction xs arbitrary: k) simp_all
  then show ?thesis by (simp add: Merge_def)
qed

lemma nth_Merge_loop:
  "n < length k \<Longrightarrow>
     fold (\<lambda>i k'. Update i (other ! i) k') [0..<m] k ! n
       = (if n < m then max (k ! n) (other ! n) else k ! n)"
proof (induction m)
  case 0
  then show ?case by simp
next
  case (Suc m)
  let ?k = "fold (\<lambda>i k'. Update i (other ! i) k') [0..<m] k"
  have len: "length ?k = length k"
    using length_Merge [of m other k] by (simp add: Merge_def)
  show ?case
    using Suc by (auto simp: nth_Update len less_Suc_eq)
qed

lemma nth_Merge:
  "n < length k \<Longrightarrow> Merge M other k ! n = (if n < M then max (k ! n) (other ! n) else k ! n)"
  by (simp add: Merge_def nth_Merge_loop)

lemma Merge_Update_other:
  assumes "length k = M" "length other = M"
  shows "Merge M (Update i z other) k = Update i z (Merge M other k)"
proof (rule nth_equalityI)
  show "length (Merge M (Update i z other) k) = length (Update i z (Merge M other k))"
    by simp
next
  fix n assume "n < length (Merge M (Update i z other) k)"
  then have n: "n < M" using assms by simp
  then show "Merge M (Update i z other) k ! n = Update i z (Merge M other k) ! n"
    using assms by (auto simp: nth_Merge nth_Update max.assoc)
qed

lemma Merge_fresh: "length k = M \<Longrightarrow> Merge M (fresh_sketch M) k = k"
  by (rule nth_equalityI) (simp_all add: nth_Merge fresh_sketch_def)

lemma length_insert_all [simp]: "length (insert_all P Q hashes k) = length k"
  unfolding insert_all_def
  by (induction hashes arbitrary: k) (simp_all add: InsertElement_def Let_def)

lemma Merge_insert_all:
  assumes "length k = M" "length other = M"
  shows "Merge M (insert_all P Q hashes other) k = insert_all P Q hashes (Merge M other k)"
  using assms(2)
proof (induction hashes arbitrary: other)
  case Nil
  then show ?case by (simp add: insert_all_def)
next
  case (Cons h hashes)
  have len: "length (InsertElement P Q h other) = M"
    using Cons.prems by (simp add: InsertElement_def Let_def)
  have "Merge M (insert_all P Q (h # hashes) other) k
          = Merge M (insert_all P Q hashes (InsertElement P Q h other)) k"
    by (simp add: insert_all_def)
  also have "\<dots> = insert_all P Q hashes (Merge M (InsertElement P Q h other) k)"
    by (rule Cons.IH [OF len])
  also have "Merge M (InsertElement P Q h other) k = InsertElement P Q h (Merge M other k)"
    using Merge_Update_other [OF assms(1) Cons.prems] by (simp add: InsertElement_def Let_def)
  finally show ?case by (simp add: insert_all_def)
qed

text \<open>
  Claim C4 (merge is the pointwise maximum, and equals union). After \<open>a.Merge(b)\<close> every
  register is the maximum of the two old registers. Hence merging the sketch of stream
  \<open>s2\<close> into the sketch of stream \<open>s1\<close> gives, register for register, the sketch of both
  streams inserted into one fresh sketch.
\<close>

theorem merge_pointwise_max_and_union:
  "(length a = M \<and> length b = M \<longrightarrow>
      length (Merge M b a) = M \<and> (\<forall>i < M. Merge M b a ! i = max (a ! i) (b ! i)))
   \<and> Merge (2 ^ P) (insert_all P Q s2 (fresh_sketch (2 ^ P)))
                    (insert_all P Q s1 (fresh_sketch (2 ^ P)))
       = insert_all P Q (s1 @ s2) (fresh_sketch (2 ^ P))"
proof (intro conjI impI allI)
  assume "length a = M \<and> length b = M"
  then show "length (Merge M b a) = M" by simp
next
  fix i assume "length a = M \<and> length b = M" "i < M"
  then show "Merge M b a ! i = max (a ! i) (b ! i)" by (simp add: nth_Merge)
next
  let ?M = "2 ^ P :: nat"
  let ?a = "insert_all P Q s1 (fresh_sketch ?M)"
  have la: "length ?a = ?M" by (simp add: fresh_sketch_def)
  have lf: "length (fresh_sketch ?M) = ?M" by (simp add: fresh_sketch_def)
  have "Merge ?M (insert_all P Q s2 (fresh_sketch ?M)) ?a
          = insert_all P Q s2 (Merge ?M (fresh_sketch ?M) ?a)"
    by (rule Merge_insert_all [OF la lf])
  also have "\<dots> = insert_all P Q s2 ?a"
    by (simp add: Merge_fresh [OF la])
  also have "\<dots> = insert_all P Q (s1 @ s2) (fresh_sketch ?M)"
    by (simp add: insert_all_def)
  finally show "Merge ?M (insert_all P Q s2 (fresh_sketch ?M)) ?a
                  = insert_all P Q (s1 @ s2) (fresh_sketch ?M)" .
qed

theorem merge_pointwise_max_and_union_witness:
  "length [7, 1 :: 8 word] = 2 \<and> length [3, 9 :: 8 word] = 2
   \<and> Merge 2 [3, 9] [7, 1] = [7, 9]
   \<and> Merge (2 ^ 2) (insert_all 2 62 [5, 8] (fresh_sketch (2 ^ 2)))
                     (insert_all 2 62 [13, 0] (fresh_sketch (2 ^ 2)))
       = insert_all 2 62 ([13, 0] @ [5, 8]) (fresh_sketch (2 ^ 2))"
proof -
  have "Merge 2 [3, 9] [7, 1] = [7, 9 :: 8 word]"
  proof (rule nth_equalityI)
    show "length (Merge 2 [3, 9] [7, 1 :: 8 word]) = length [7, 9 :: 8 word]" by simp
    fix i assume "i < length (Merge 2 [3, 9] [7, 1 :: 8 word])"
    then have i: "i < 2" by simp
    then have "i = 0 \<or> i = 1" by auto
    with i show "Merge 2 [3, 9] [7, 1 :: 8 word] ! i = [7, 9] ! i"
      using merge_pointwise_max_and_union [of "[7, 1]" 2 "[3, 9]" 2 62 "[5, 8]" "[13, 0]"]
      by auto
  qed
  then show ?thesis
    using merge_pointwise_max_and_union [of "[7, 1]" 2 "[3, 9]" 2 62 "[5, 8]" "[13, 0]"]
    by simp
qed

section \<open>Properties of the conversion between old and new sketch\<close>

subsection \<open>Register loops\<close>

text \<open>What a run of stores to consecutive or strided registers leaves behind.\<close>

lemma length_store_run [simp]:
  "length (fold (\<lambda>j h'. h'[b + j := v]) js h) = length h"
  by (induction js arbitrary: h) simp_all

lemma nth_store_run:
  "n < length h \<Longrightarrow>
     fold (\<lambda>j h'. h'[b + j := v]) [lo..<hi] h ! n
       = (if b + lo \<le> n \<and> n < b + hi then v else h ! n)"
proof (induction hi)
  case 0
  then show ?case by auto
next
  case (Suc hi)
  let ?h = "fold (\<lambda>j h'. h'[b + j := v]) [lo..<hi] h"
  have len: "length ?h = length h" by simp
  show ?case
  proof (cases "lo \<le> hi")
    case True
    then have "fold (\<lambda>j h'. h'[b + j := v]) [lo..<Suc hi] h ! n = ?h[b + hi := v] ! n"
      by simp
    also have "\<dots> = (if b + hi = n then v else ?h ! n)"
      using Suc.prems len by (simp add: nth_list_update)
    also have "\<dots> = (if b + lo \<le> n \<and> n < b + Suc hi then v else h ! n)"
      using Suc.IH [OF Suc.prems] True by auto
    finally show ?thesis .
  next
    case False
    then show ?thesis by auto
  qed
qed

lemma div_mod_stride:
  assumes "0 < (m::nat)"
  shows "(i * m + 1 \<le> n \<and> n < i * m + m) \<longleftrightarrow> (n div m = i \<and> n mod m \<noteq> 0)"
proof
  assume a: "i * m + 1 \<le> n \<and> n < i * m + m"
  define j where "j = n - i * m"
  have j: "n = j + i * m" "1 \<le> j" "j < m" using a by (auto simp: j_def)
  show "n div m = i \<and> n mod m \<noteq> 0"
    unfolding j(1) using j(2,3) assms by simp
next
  assume a: "n div m = i \<and> n mod m \<noteq> 0"
  have "n = (n div m) * m + n mod m" by simp
  with a have n: "n = i * m + n mod m" by simp
  have "n mod m < m" using assms by simp
  moreover have "1 \<le> n mod m" using a by simp
  ultimately show "i * m + 1 \<le> n \<and> n < i * m + m"
    using n by linarith
qed

lemma length_fill_loop [simp]:
  "length (fold (\<lambda>i. fold (\<lambda>j h'. h'[i * s + j := a i]) (js i)) is h) = length h"
  by (induction "is" arbitrary: h) simp_all

lemma nth_fill_loop:
  assumes "n < length h" "0 < s"
  shows "fold (\<lambda>i. fold (\<lambda>j h'. h'[i * s + j := a i]) [1..<s]) [0..<m] h ! n
         = (if n div s < m \<and> n mod s \<noteq> 0 then a (n div s) else h ! n)"
proof (induction m)
  case 0
  then show ?case by simp
next
  case (Suc m)
  let ?h = "fold (\<lambda>i. fold (\<lambda>j h'. h'[i * s + j := a i]) [1..<s]) [0..<m] h"
  have len: "n < length ?h" using assms(1) by simp
  have "fold (\<lambda>i. fold (\<lambda>j h'. h'[i * s + j := a i]) [1..<s]) [0..<Suc m] h ! n
          = fold (\<lambda>j h'. h'[m * s + j := a m]) [1..<s] ?h ! n"
    by simp
  also have "\<dots> = (if m * s + 1 \<le> n \<and> n < m * s + s then a m else ?h ! n)"
    by (rule nth_store_run [OF len])
  also have "\<dots> = (if n div s = m \<and> n mod s \<noteq> 0 then a m else ?h ! n)"
    by (simp only: div_mod_stride [OF assms(2)])
  finally show ?case
    using Suc by (auto simp: less_Suc_eq)
qed

lemma length_anchor_loop [simp]:
  "length (fst (fold (\<lambda>i (h, sum). (h[i * s := a i], g sum i)) is (h, z))) = length h"
  by (induction "is" arbitrary: h z) simp_all

lemma anchor_loop:
  shows "fold (\<lambda>i (h, sum). (h[i * s := a i], (sum + unat (a i)) mod 2 ^ 64)) [0..<m] (h, 0)
         = (fold (\<lambda>i h. h[i * s := a i]) [0..<m] h, (\<Sum>i<m. unat (a i :: 8 word)) mod 2 ^ 64)"
proof (induction m)
  case 0
  then show ?case by simp
next
  case (Suc m)
  then show ?case by (simp add: mod_add_left_eq)
qed

lemma nth_anchor_loop:
  assumes "n < length h" "0 < s"
  shows "fold (\<lambda>i h. h[i * s := a i]) [0..<m] h ! n
         = (if n div s < m \<and> n mod s = 0 then a (n div s) else h ! n)"
proof (induction m)
  case 0
  then show ?case by simp
next
  case (Suc m)
  let ?h = "fold (\<lambda>i h. h[i * s := a i]) [0..<m] h"
  have l: "length (fold (\<lambda>i h. h[i * s := a i]) is h) = length h" for "is"
    by (induction "is" arbitrary: h) simp_all
  have eq: "n = m * s \<longleftrightarrow> n div s = m \<and> n mod s = 0"
    using assms(2) by auto
  show ?case
    using Suc assms(1) l eq by (auto simp: nth_list_update less_Suc_eq)
qed


lemma FromNew_anchors_eq:
  "FromNew_anchors c new_k hll
     = (fold (\<lambda>i h. h[i * mult c := anchor c new_k i]) [0..<sketch_M c] hll,
        (\<Sum>i \<in> {..<sketch_M c}. unat (anchor c new_k i)) mod 2 ^ 64)"
  unfolding FromNew_anchors_def set_register_def GetRegister_def Let_def anchor_def [symmetric]
  by (rule anchor_loop)

lemma FromNew_fill_eq:
  "FromNew_fill c new_k dv hll
     = fold (\<lambda>i. fold (\<lambda>j h'. h'[i * mult c + j := min (anchor c new_k i) dv]) [1..<mult c])
         [0..<sketch_M c] hll"
  unfolding FromNew_fill_def set_register_def GetRegister_def Let_def anchor_def [symmetric]
  by (rule refl)

lemma sum_anchor_bound: "(\<Sum>i<m. unat (a i :: 8 word)) \<le> 255 * m"
proof (induction m)
  case 0
  then show ?case by simp
next
  case (Suc m)
  have "unat (a m) < 2 ^ 8" using unsigned_less [of "a m"] by simp
  then have "unat (a m) \<le> 255" by simp
  with Suc show ?case by simp
qed

lemma slot_index:
  assumes "i < M" "j < s" "M * s \<le> (N::nat)"
  shows "i * s + j < N" "(i * s + j) div s = i" "(i * s + j) mod s = j"
proof -
  have "i * s + j < i * s + s" using assms(2) by simp
  also have "\<dots> = Suc i * s" by simp
  also have "\<dots> \<le> M * s" using assms(1) by (intro mult_le_mono1) simp
  finally show "i * s + j < N" using assms(3) by simp
  show "(i * s + j) div s = i" "(i * s + j) mod s = j" using assms(2) by simp_all
qed

lemma mult_bound: "sketch_M c * mult c \<le> num_registers c"
  by (simp add: mult_def)

lemma mult_pos: "0 < sketch_M c \<Longrightarrow> sketch_M c \<le> num_registers c \<Longrightarrow> 0 < mult c"
  by (simp add: mult_def div_greater_zero_iff)

lemma length_plain_anchor_loop [simp]:
  "length (fold (\<lambda>i h. h[i * s := a i]) is h) = length h"
  by (induction "is" arbitrary: h) simp_all

lemma anchored_anchors:
  assumes "0 < sketch_M c" "sketch_M c \<le> num_registers c"
  shows "anchored c new_k (fst (FromNew_anchors c new_k (new_HLLV1 c)))"
proof -
  have s: "0 < mult c" by (rule mult_pos [OF assms])
  let ?h = "fold (\<lambda>i h. h[i * mult c := anchor c new_k i]) [0..<sketch_M c] (new_HLLV1 c)"
  have len: "length ?h = num_registers c"
    by (simp add: new_HLLV1_def)
  have slot: "?h ! (i * mult c + j) = (if j = 0 then anchor c new_k i else 0)"
    if "i < sketch_M c" "j < mult c" for i j
  proof -
    note ix = slot_index [OF that mult_bound]
    have "i * mult c + j < length (new_HLLV1 c)" using ix(1) by (simp add: new_HLLV1_def)
    from nth_anchor_loop [OF this s, of "anchor c new_k" "sketch_M c"]
    show ?thesis using that ix by (simp add: new_HLLV1_def)
  qed
  show ?thesis
    unfolding anchored_def FromNew_anchors_eq fst_conv
    using len slot slot [where j = 0] s by simp
qed

lemma anchored_fill:
  assumes "anchored c new_k hll" "0 < sketch_M c" "sketch_M c \<le> num_registers c"
  shows "anchored c new_k (FromNew_fill c new_k dv hll)"
proof -
  have s: "0 < mult c" by (rule mult_pos [OF assms(2,3)])
  have len: "length hll = num_registers c" using assms(1) by (simp add: anchored_def)
  have slot: "FromNew_fill c new_k dv hll ! (i * mult c + j)
                = (if j = 0 then hll ! (i * mult c + j) else min (anchor c new_k i) dv)"
    if "i < sketch_M c" "j < mult c" for i j
  proof -
    note ix = slot_index [OF that mult_bound]
    have "i * mult c + j < length hll" using ix(1) len by simp
    from nth_fill_loop [OF this s, of "\<lambda>i. min (anchor c new_k i) dv" "sketch_M c"]
    show ?thesis using that ix by (simp add: FromNew_fill_eq)
  qed
  have old: "hll ! (i * mult c) = anchor c new_k i" if "i < sketch_M c" for i
    using assms(1) that unfolding anchored_def by simp
  have len': "length (FromNew_fill c new_k dv hll) = num_registers c"
    using len by (simp add: FromNew_fill_eq)
  show ?thesis
    unfolding anchored_def
    using len' slot slot [where j = 0] old s by simp
qed

lemma anchored_search:
  assumes "0 < sketch_M c" "sketch_M c \<le> num_registers c"
  shows "anchored c new_k hll \<Longrightarrow> FromNew_search c new_k cnt e dv hll = Returns img
           \<Longrightarrow> anchored c new_k img"
proof (induction e arbitrary: dv hll)
  case 0
  then show ?case by simp
next
  case (Suc e)
  let ?h = "FromNew_fill c new_k dv hll"
  have a: "anchored c new_k ?h" by (rule anchored_fill [OF Suc.prems(1) assms])
  show ?case
  proof (cases "hll_count c ?h")
    case None
    with Suc.prems(2) show ?thesis by (simp add: V1_Count_def Let_def)
  next
    case (Some count)
    show ?thesis
    proof (cases "IsWithinAcceptableRange c cnt count")
      case True
      with Suc.prems(2) Some a show ?thesis by (simp add: V1_Count_def Let_def)
    next
      case False
      with Suc.prems(2) Some have
        "FromNew_search c new_k cnt e
           (if count > sketch_Count c new_k then dv - of_nat (Suc e) else dv + of_nat (Suc e)) ?h
         = Returns img"
        by (simp add: V1_Count_def Let_def)
      from Suc.IH [OF a this] show ?thesis .
    qed
  qed
qed

lemma search_outcome:
  "(\<exists>img. FromNew_search c new_k cnt e dv hll = Returns img)
   \<or> FromNew_search c new_k cnt e dv hll = Throws (InternalException ''Could not count HLL?'')"
proof (induction e arbitrary: dv hll)
  case 0
  then show ?case by simp
next
  case (Suc e)
  show ?case
    using Suc.IH by (auto simp: V1_Count_def Let_def split: option.splits)
qed

lemma search_returns:
  "\<forall>h. hll_count c h \<noteq> None \<Longrightarrow> \<exists>img. FromNew_search c new_k cnt e dv hll = Returns img"
proof (induction e arbitrary: dv hll)
  case 0
  then show ?case by simp
next
  case (Suc e)
  let ?h = "FromNew_fill c new_k dv hll"
  from Suc.prems obtain count where "hll_count c ?h = Some count" by auto
  then show ?case
    using Suc.IH [OF Suc.prems] by (simp add: V1_Count_def Let_def)
qed


lemma length_update_loop [simp]:
  "length (fold (\<lambda>i k'. Update i (f i) k') is k) = length k"
  by (induction "is" arbitrary: k) simp_all

lemma nth_update_loop:
  "n < length k \<Longrightarrow>
     fold (\<lambda>i k'. Update i (f i) k') [0..<m] k ! n
       = (if n < m then max (k ! n) (f n) else k ! n)"
proof (induction m)
  case 0
  then show ?case by simp
next
  case (Suc m)
  show ?case
    using Suc by (auto simp: nth_Update less_Suc_eq)
qed

lemma fold_max_upper:
  "m0 \<le> a \<Longrightarrow> \<forall>j < n. f j \<le> a \<Longrightarrow> fold (\<lambda>j m. max m (f j)) [0..<n] m0 \<le> (a :: 8 word)"
  by (induction n) simp_all

lemma fold_max_lower:
  "j < n \<Longrightarrow> f j \<le> fold (\<lambda>j m. max m (f j)) [0..<n] (m0 :: 8 word)"
proof (induction n)
  case 0
  then show ?case by simp
next
  case (Suc n)
  then show ?case by (auto simp: less_Suc_eq max.coboundedI1)
qed

lemma ToNew_anchored:
  assumes "anchored c new_k img" "0 < sketch_M c" "sketch_M c \<le> num_registers c"
    and "length new_k = sketch_M c"
  shows "ToNew c img (fresh_sketch (sketch_M c)) = map (\<lambda>r. min r (maximum_zeros c)) new_k"
proof (rule nth_equalityI)
  show len: "length (ToNew c img (fresh_sketch (sketch_M c)))
          = length (map (\<lambda>r. min r (maximum_zeros c)) new_k)"
    by (simp add: ToNew_def fresh_sketch_def assms(4))
  fix i assume "i < length (ToNew c img (fresh_sketch (sketch_M c)))"
  then have i: "i < sketch_M c" using len assms(4) by simp
  have s: "0 < mult c" by (rule mult_pos [OF assms(2,3)])
  let ?inner = "\<lambda>i. fold (\<lambda>j max_old. max max_old (get_register img (i * mult c + j))) [0..<mult c] 0"
  have up: "?inner i \<le> anchor c new_k i"
    using assms(1) i by (intro fold_max_upper) (simp_all add: anchored_def get_register_def)
  have "get_register img (i * mult c + 0) \<le> ?inner i"
    by (rule fold_max_lower [OF s])
  then have lo: "anchor c new_k i \<le> ?inner i"
    using assms(1) i by (simp add: anchored_def get_register_def)
  have inner: "?inner i = anchor c new_k i" using up lo by simp
  have "ToNew c img (fresh_sketch (sketch_M c)) ! i = max (fresh_sketch (sketch_M c) ! i) (?inner i)"
    unfolding ToNew_def using i by (subst nth_update_loop) (simp_all add: fresh_sketch_def)
  also have "\<dots> = anchor c new_k i"
    using i by (simp add: inner fresh_sketch_def)
  finally show "ToNew c img (fresh_sketch (sketch_M c)) ! i
                  = map (\<lambda>r. min r (maximum_zeros c)) new_k ! i"
    using i assms(4) by (simp add: anchor_def)
qed

subsection \<open>The example instance\<close>

lemma small_upt:
  "[0..<2] = [0, 1 :: nat]" "[Suc 0..<4] = [1, 2, 3 :: nat]"
  by (simp_all add: eval_nat_numeral)

lemma example_new_HLLV1: "new_HLLV1 example_consts = [0, 0, 0, 0, 0, 0, 0, 0]"
  by (simp add: new_HLLV1_def example_consts_def eval_nat_numeral)

lemma example_anchors_59:
  "FromNew_anchors example_consts [59, 1] [0, 0, 0, 0, 0, 0, 0, 0] = ([53, 0, 0, 0, 1, 0, 0, 0], 54)"
  by (simp add: FromNew_anchors_def mult_def GetRegister_def set_register_def small_upt
        example_consts_def)

lemma example_fill_59:
  "FromNew_fill example_consts [59, 1] 27 [53, 0, 0, 0, 1, 0, 0, 0] = [53, 27, 27, 27, 1, 1, 1, 1]"
  by (simp add: FromNew_fill_def mult_def GetRegister_def set_register_def small_upt
        example_consts_def)

lemma example_search_59:
  "FromNew_search example_consts [59, 1] (Suc (Suc 0)) 4 27 [53, 0, 0, 0, 1, 0, 0, 0]
     = Returns [53, 27, 27, 27, 1, 1, 1, 1]"
  using FromNew_search.simps(2) [of example_consts "[59, 1]" "Suc (Suc 0)" 3 27
          "[53, 0, 0, 0, 1, 0, 0, 0]"]
  by (simp add: example_fill_59 V1_Count_def) (simp add: example_consts_def)

lemma example_FromNew_59:
  "FromNew example_consts [59, 1] (new_HLLV1 example_consts) = Returns [53, 27, 27, 27, 1, 1, 1, 1]"
proof -
  have c: "sketch_Count example_consts [59, 1] = Suc (Suc 0)" "sketch_M example_consts = 2"
    by (simp_all add: example_consts_def)
  show ?thesis
    unfolding example_new_HLLV1 FromNew_def
    by (simp add: c example_anchors_59 NumericCast_uint8_def example_search_59)
qed

lemma example_ToNew_59:
  "ToNew example_consts [53, 27, 27, 27, 1, 1, 1, 1] (fresh_sketch (sketch_M example_consts)) = [53, 1]"
proof -
  have r2: "replicate 2 (0 :: 8 word) = [0, 0]" by (simp add: eval_nat_numeral)
  have u4: "[0..<4] = [0, 1, 2, 3 :: nat]" by (simp add: eval_nat_numeral)
  show ?thesis
    by (simp add: ToNew_def mult_def Update_def get_register_def fresh_sketch_def small_upt u4 r2
          example_consts_def)
qed

lemma example_anchors_5:
  "FromNew_anchors example_consts [5, 1] [0, 0, 0, 0, 0, 0, 0, 0] = ([5, 0, 0, 0, 1, 0, 0, 0], 6)"
  by (simp add: FromNew_anchors_def mult_def GetRegister_def set_register_def small_upt
        example_consts_def)

lemma example_fill_5:
  "FromNew_fill example_consts [5, 1] 3 [5, 0, 0, 0, 1, 0, 0, 0] = [5, 3, 3, 3, 1, 1, 1, 1]"
  by (simp add: FromNew_fill_def mult_def GetRegister_def set_register_def small_upt
        example_consts_def)

lemma example_search_5:
  "FromNew_search example_consts [5, 1] (Suc (Suc 0)) 4 3 [5, 0, 0, 0, 1, 0, 0, 0]
     = Returns [5, 3, 3, 3, 1, 1, 1, 1]"
  using FromNew_search.simps(2) [of example_consts "[5, 1]" "Suc (Suc 0)" 3 3
          "[5, 0, 0, 0, 1, 0, 0, 0]"]
  by (simp add: example_fill_5 V1_Count_def) (simp add: example_consts_def)

lemma example_FromNew_5:
  "FromNew example_consts [5, 1] (new_HLLV1 example_consts) = Returns [5, 3, 3, 3, 1, 1, 1, 1]"
proof -
  have c: "sketch_Count example_consts [5, 1] = Suc (Suc 0)" "sketch_M example_consts = 2"
    by (simp_all add: example_consts_def)
  show ?thesis
    unfolding example_new_HLLV1 FromNew_def
    by (simp add: c example_anchors_5 NumericCast_uint8_def example_search_5)
qed

subsection \<open>The starting value of the upscale search\<close>

text \<open>
  Claim C7 (upscale starting value), as the code has it. When the new sketch's count is
  positive, \<open>FromNew\<close> runs its search from \<open>default_val = avg\<close>, where \<open>avg\<close> is the sum of the
  \<open>M\<close> anchor values \<open>min(new.k[i], maximum_zeros())\<close> divided by \<open>M\<close> in \<open>idx_t\<close> arithmetic:
  the checked cast to 8 bits succeeds, and \<open>avg\<close> is the integer quotient, that is the real
  average rounded down, not to the nearest integer. (\<open>M\<close> is positive and small enough that
  the \<open>idx_t\<close> sum cannot wrap.)
\<close>

theorem upscale_starting_value:
  assumes "0 < sketch_Count c new_k" "0 < sketch_M c" "sketch_M c < 2 ^ 56"
  shows "\<exists>avg. NumericCast_uint8 (snd (FromNew_anchors c new_k hll) div sketch_M c) = Returns avg
           \<and> FromNew c new_k hll
               = FromNew_search c new_k (sketch_Count c new_k) 4 avg
                   (fst (FromNew_anchors c new_k hll))
           \<and> unat avg = (\<Sum>i \<in> {..<sketch_M c}. unat (min (GetRegister new_k i) (maximum_zeros c)))
                            div sketch_M c
           \<and> int (unat avg)
               = \<lfloor>real (\<Sum>i \<in> {..<sketch_M c}. unat (min (GetRegister new_k i) (maximum_zeros c)))
                   / real (sketch_M c)\<rfloor>"
proof -
  let ?S = "\<Sum>i \<in> {..<sketch_M c}. unat (anchor c new_k i)"
  have S: "?S = (\<Sum>i \<in> {..<sketch_M c}. unat (min (GetRegister new_k i) (maximum_zeros c)))"
    by (simp add: anchor_def GetRegister_def)
  have b: "?S \<le> 255 * sketch_M c" by (rule sum_anchor_bound)
  also have "\<dots> < 255 * 2 ^ 56" using assms(3) by simp
  also have "\<dots> < (2 ^ 64 :: nat)" by simp
  finally have "?S < 2 ^ 64" .
  then have nowrap: "?S mod 2 ^ 64 = ?S" by (rule mod_less)
  have sum: "snd (FromNew_anchors c new_k hll) = ?S"
    by (simp only: FromNew_anchors_eq snd_conv nowrap)
  have "?S div sketch_M c \<le> (255 * sketch_M c) div sketch_M c"
    by (rule div_le_mono [OF b])
  then have "?S div sketch_M c \<le> 255" using assms(2) by simp
  then have small: "?S div sketch_M c < 256" by simp
  let ?avg = "of_nat (?S div sketch_M c) :: 8 word"
  have cast: "NumericCast_uint8 (snd (FromNew_anchors c new_k hll) div sketch_M c) = Returns ?avg"
    using small by (simp add: sum NumericCast_uint8_def)
  have run: "FromNew c new_k hll
               = FromNew_search c new_k (sketch_Count c new_k) 4 ?avg
                   (fst (FromNew_anchors c new_k hll))"
    using assms(1) cast by (simp add: FromNew_def Let_def split_def)
  have un: "unat ?avg = ?S div sketch_M c"
    using small by (simp add: unat_of_nat)
  have fl: "int (unat ?avg) = \<lfloor>real ?S / real (sketch_M c)\<rfloor>"
    by (simp only: un floor_divide_of_nat_eq)
  show ?thesis
    using cast run un fl unfolding S by blast
qed

text \<open>
  In the example with the registers 4 and 1 the anchors are 4 and 1, their average is 2.5,
  and the search starts at 2.
\<close>

lemma example_anchors_4:
  "FromNew_anchors example_consts [4, 1] [0, 0, 0, 0, 0, 0, 0, 0] = ([4, 0, 0, 0, 1, 0, 0, 0], 5)"
  by (simp add: FromNew_anchors_def mult_def GetRegister_def set_register_def small_upt
        example_consts_def)

lemma example_cast_4:
  "NumericCast_uint8
     (snd (FromNew_anchors example_consts [4, 1] (new_HLLV1 example_consts))
        div sketch_M example_consts) = Returns 2"
proof -
  have m: "sketch_M example_consts = 2" by (simp add: example_consts_def)
  show ?thesis
    by (simp add: example_new_HLLV1 example_anchors_4 m NumericCast_uint8_def)
qed

theorem upscale_starting_value_witness:
  "0 < sketch_Count example_consts [4, 1] \<and> 0 < sketch_M example_consts
   \<and> sketch_M example_consts < 2 ^ 56
   \<and> NumericCast_uint8
         (snd (FromNew_anchors example_consts [4, 1] (new_HLLV1 example_consts))
            div sketch_M example_consts) = Returns 2
   \<and> FromNew example_consts [4, 1] (new_HLLV1 example_consts)
       = FromNew_search example_consts [4, 1] (sketch_Count example_consts [4, 1]) 4 2
           [4, 0, 0, 0, 1, 0, 0, 0]"
proof -
  have c: "0 < sketch_Count example_consts [4, 1]" "0 < sketch_M example_consts"
    "sketch_M example_consts < 2 ^ 56"
    by (simp_all add: example_consts_def)
  from upscale_starting_value [OF c, of "new_HLLV1 example_consts"] example_cast_4
  have "FromNew example_consts [4, 1] (new_HLLV1 example_consts)
       = FromNew_search example_consts [4, 1] (sketch_Count example_consts [4, 1]) 4 2
           (fst (FromNew_anchors example_consts [4, 1] (new_HLLV1 example_consts)))"
    by auto
  then show ?thesis
    using c example_cast_4 by (simp add: example_new_HLLV1 example_anchors_4)
qed

text \<open>
  The same example against the claim as worded: the average 2.5 rounded to the nearest
  integer is 3, but the search starts at 2.
\<close>

theorem upscale_starting_value_rounding_counterexample:
  "0 < sketch_Count example_consts [4, 1]
   \<and> snd (FromNew_anchors example_consts [4, 1] (new_HLLV1 example_consts)) = 5
   \<and> sketch_M example_consts = 2
   \<and> round (real (snd (FromNew_anchors example_consts [4, 1] (new_HLLV1 example_consts)))
               / real (sketch_M example_consts)) = 3
   \<and> FromNew example_consts [4, 1] (new_HLLV1 example_consts)
       = FromNew_search example_consts [4, 1] (sketch_Count example_consts [4, 1]) 4 2
           [4, 0, 0, 0, 1, 0, 0, 0]"
proof -
  have c: "0 < sketch_Count example_consts [4, 1]" "sketch_M example_consts = 2"
    by (simp_all add: example_consts_def)
  have s: "snd (FromNew_anchors example_consts [4, 1] (new_HLLV1 example_consts)) = 5"
    by (simp add: example_new_HLLV1 example_anchors_4)
  have r: "round (real (snd (FromNew_anchors example_consts [4, 1] (new_HLLV1 example_consts)))
               / real (sketch_M example_consts)) = 3"
    unfolding s c(2) by (simp add: round_def)
  have f: "FromNew example_consts [4, 1] (new_HLLV1 example_consts)
       = FromNew_search example_consts [4, 1] (sketch_Count example_consts [4, 1]) 4 2
           [4, 0, 0, 0, 1, 0, 0, 0]"
    using c(1) example_cast_4
    by (simp add: FromNew_def Let_def split_def example_new_HLLV1 example_anchors_4)
  show ?thesis using c s r f by simp
qed

lemma anchors_cast_ok:
  assumes "0 < sketch_M c"
  shows "\<exists>avg. NumericCast_uint8 (snd (FromNew_anchors c new_k hll) div sketch_M c) = Returns avg"
proof -
  let ?S = "\<Sum>i \<in> {..<sketch_M c}. unat (anchor c new_k i)"
  have "?S mod 2 ^ 64 \<le> ?S" by simp
  also have "\<dots> \<le> 255 * sketch_M c" by (rule sum_anchor_bound)
  finally have "(?S mod 2 ^ 64) div sketch_M c \<le> (255 * sketch_M c) div sketch_M c"
    by (rule div_le_mono)
  then have "(?S mod 2 ^ 64) div sketch_M c < 256" using assms by simp
  then show ?thesis
    by (simp only: FromNew_anchors_eq snd_conv NumericCast_uint8_def if_True) blast
qed

subsection \<open>From the new sketch to the old one and back\<close>

text \<open>
  Claim C2 (exact recovery), as the code has it. For a new sketch with a positive count,
  \<open>FromNew\<close> into a new \<open>HLLV1\<close> either throws because the old sketch cannot be counted, or
  returns an image from which \<open>ToNew\<close> into a fresh sketch gives, at every index \<open>i\<close>, the
  register \<open>min(k[i], maximum_zeros())\<close>. The result is the original register array
  whenever no register exceeds \<open>maximum_zeros()\<close>. If counting the old sketch never fails,
  \<open>FromNew\<close> returns.
\<close>

theorem v1_round_trip_registers:
  assumes "0 < sketch_Count c new_k" "0 < sketch_M c" "sketch_M c \<le> num_registers c"
    and "length new_k = sketch_M c"
  shows "((\<exists>img. FromNew c new_k (new_HLLV1 c) = Returns img
            \<and> ToNew c img (fresh_sketch (sketch_M c)) = map (\<lambda>r. min r (maximum_zeros c)) new_k
            \<and> ((\<forall>r \<in> set new_k. r \<le> maximum_zeros c) \<longrightarrow>
                 ToNew c img (fresh_sketch (sketch_M c)) = new_k))
          \<or> FromNew c new_k (new_HLLV1 c) = Throws (InternalException ''Could not count HLL?''))
       \<and> ((\<forall>h. hll_count c h \<noteq> None) \<longrightarrow> (\<exists>img. FromNew c new_k (new_HLLV1 c) = Returns img))"
proof -
  from anchors_cast_ok [OF assms(2)]
  obtain avg where cast: "NumericCast_uint8 (snd (FromNew_anchors c new_k (new_HLLV1 c)) div sketch_M c)
                            = Returns avg"
    by blast
  let ?h1 = "fst (FromNew_anchors c new_k (new_HLLV1 c))"
  have run: "FromNew c new_k (new_HLLV1 c)
               = FromNew_search c new_k (sketch_Count c new_k) 4 avg ?h1"
    using assms(1) cast by (simp add: FromNew_def Let_def split_def)
  have a1: "anchored c new_k ?h1" by (rule anchored_anchors [OF assms(2,3)])
  have id: "map (\<lambda>r. min r (maximum_zeros c)) new_k = new_k" if "\<forall>r \<in> set new_k. r \<le> maximum_zeros c"
    using that by (simp add: map_idI min_def)
  have trip: "ToNew c img (fresh_sketch (sketch_M c)) = map (\<lambda>r. min r (maximum_zeros c)) new_k"
    if "FromNew c new_k (new_HLLV1 c) = Returns img" for img
  proof -
    have "anchored c new_k img"
      using anchored_search [OF assms(2,3) a1] that unfolding run by blast
    then show ?thesis by (rule ToNew_anchored [OF _ assms(2,3,4)])
  qed
  have first: "(\<exists>img. FromNew c new_k (new_HLLV1 c) = Returns img
            \<and> ToNew c img (fresh_sketch (sketch_M c)) = map (\<lambda>r. min r (maximum_zeros c)) new_k
            \<and> ((\<forall>r \<in> set new_k. r \<le> maximum_zeros c) \<longrightarrow>
                 ToNew c img (fresh_sketch (sketch_M c)) = new_k))
          \<or> FromNew c new_k (new_HLLV1 c) = Throws (InternalException ''Could not count HLL?'')"
    using search_outcome [of c new_k "sketch_Count c new_k" 4 avg ?h1] trip id
    unfolding run [symmetric] by metis
  have second: "(\<forall>h. hll_count c h \<noteq> None) \<longrightarrow> (\<exists>img. FromNew c new_k (new_HLLV1 c) = Returns img)"
    using search_returns [of c new_k "sketch_Count c new_k" 4 avg ?h1] unfolding run by blast
  show ?thesis using first second by blast
qed

text \<open>Registers 5 and 1, both below the cap of 53, come back unchanged.\<close>

theorem v1_round_trip_registers_witness:
  "0 < sketch_Count example_consts [5, 1] \<and> 0 < sketch_M example_consts
   \<and> sketch_M example_consts \<le> num_registers example_consts
   \<and> length [5, 1 :: 8 word] = sketch_M example_consts
   \<and> FromNew example_consts [5, 1] (new_HLLV1 example_consts) = Returns [5, 3, 3, 3, 1, 1, 1, 1]
   \<and> ToNew example_consts [5, 3, 3, 3, 1, 1, 1, 1] (fresh_sketch (sketch_M example_consts)) = [5, 1]"
proof -
  have c: "0 < sketch_Count example_consts [5, 1]" "0 < sketch_M example_consts"
    "sketch_M example_consts \<le> num_registers example_consts"
    "length [5, 1 :: 8 word] = sketch_M example_consts"
    by (simp_all add: example_consts_def)
  have cap: "maximum_zeros example_consts = 53" by (simp add: example_consts_def)
  from v1_round_trip_registers [OF c]
  have "ToNew example_consts [5, 3, 3, 3, 1, 1, 1, 1] (fresh_sketch (sketch_M example_consts))
          = map (\<lambda>r. min r (maximum_zeros example_consts)) [5, 1]"
    by (simp add: example_FromNew_5)
  then have "ToNew example_consts [5, 3, 3, 3, 1, 1, 1, 1] (fresh_sketch (sketch_M example_consts))
          = [5, 1]"
    by (simp add: cap)
  then show ?thesis using c example_FromNew_5 by simp
qed

text \<open>
  A register of 59 with a cap of 53 comes back as 53: the round trip does not recover every
  sketch with a positive count.
\<close>

theorem v1_round_trip_clamps_counterexample:
  "0 < sketch_Count example_consts [59, 1]
   \<and> FromNew example_consts [59, 1] (new_HLLV1 example_consts)
       = Returns [53, 27, 27, 27, 1, 1, 1, 1]
   \<and> ToNew example_consts [53, 27, 27, 27, 1, 1, 1, 1] (fresh_sketch (sketch_M example_consts))
       = [53, 1]
   \<and> [53, 1] \<noteq> [59, 1 :: 8 word]"
  using example_FromNew_59 example_ToNew_59 by (simp add: example_consts_def)

end
